theory Spec2Isabelle
  imports Complex_Main
begin

section \<open>King Phisher client: the campaign tabs (king\_phisher/client/tabs/campaign.py)\<close>

text \<open>
  A shallow embedding of the tab classes of \<^verbatim>\<open>campaign.py\<close>. Every method becomes a
  function from the object's state (and what it reads from its environment: the clock,
  the RPC server's answers, the user's answers in dialogs) to the new state and the list
  of effects the method performs, in the order the source performs them.
\<close>

subsection \<open>Python values, dictionaries and errors\<close>

datatype pyval = PNone | PStr string | PInt int | PBool bool

text \<open>A dictionary with string keys (a row sent by the server, the configuration).\<close>

type_synonym pydict = "(string \<times> pyval) list"

datatype error = KeyError string | TypeError | NotImplementedError

text \<open>\<^verbatim>\<open>d[k]\<close>: raises KeyError on a missing key.\<close>

definition getitem :: "pydict \<Rightarrow> string \<Rightarrow> error + pyval" where
  "getitem d k = (case map_of d k of None \<Rightarrow> Inl (KeyError k) | Some v \<Rightarrow> Inr v)"

text \<open>\<^verbatim>\<open>d.get(k, default)\<close>.\<close>

definition dict_get :: "pydict \<Rightarrow> string \<Rightarrow> pyval \<Rightarrow> pyval" where
  "dict_get d k dflt = (case map_of d k of None \<Rightarrow> dflt | Some v \<Rightarrow> v)"

text \<open>The elements of a tuple display are evaluated from left to right; the first raise wins.\<close>

fun sequence_e :: "(error + 'a) list \<Rightarrow> error + 'a list" where
  "sequence_e [] = Inr []"
| "sequence_e (m # ms) =
     (case m of
        Inl e \<Rightarrow> Inl e
      | Inr x \<Rightarrow> (case sequence_e ms of Inl e \<Rightarrow> Inl e | Inr xs \<Rightarrow> Inr (x # xs)))"

definition map_e :: "('a \<Rightarrow> 'b) \<Rightarrow> error + 'a \<Rightarrow> error + 'b" where
  "map_e f m = (case m of Inl e \<Rightarrow> Inl e | Inr x \<Rightarrow> Inr (f x))"

text \<open>Truth value of a Python object (\<^verbatim>\<open>if x\<close>).\<close>

fun truthy :: "pyval \<Rightarrow> bool" where
  "truthy PNone = False"
| "truthy (PStr s) = (s \<noteq> [])"
| "truthy (PInt i) = (i \<noteq> 0)"
| "truthy (PBool b) = b"

text \<open>\<^verbatim>\<open>str(x)\<close>.\<close>

fun str_nat :: "nat \<Rightarrow> string" where
  "str_nat n =
     (if n < 10 then [char_of (48 + n)]
      else str_nat (n div 10) @ [char_of (48 + n mod 10)])"

declare str_nat.simps [simp del]

fun py_str :: "pyval \<Rightarrow> string" where
  "py_str PNone = ''None''"
| "py_str (PStr s) = s"
| "py_str (PInt i) = (if i < 0 then CHR ''-'' # str_nat (nat (- i)) else str_nat (nat i))"
| "py_str (PBool b) = (if b then ''True'' else ''False'')"

text \<open>\<^verbatim>\<open>a + b\<close> where \<^verbatim>\<open>b\<close> is a string literal: defined on strings only.\<close>

fun str_add :: "pyval \<Rightarrow> string \<Rightarrow> error + string" where
  "str_add (PStr a) b = Inr (a @ b)"
| "str_add _ b = Inl TypeError"

subsection \<open>Time\<close>

text \<open>
  \<^verbatim>\<open>last_load_time\<close> is a float: \<^verbatim>\<open>float('-inf')\<close> at first, a value of
  \<^verbatim>\<open>time.time()\<close> later. A difference of times is finite or \<open>+inf\<close>. Finite
  times are real numbers here: the rounding of floating point numbers is left out.
\<close>

datatype ftime = NegInf | Fin real

datatype fdiff = FinD real | PosInf

fun time_sub :: "real \<Rightarrow> ftime \<Rightarrow> fdiff" where
  "time_sub now NegInf = PosInf"
| "time_sub now (Fin t) = FinD (now - t)"

fun diff_less :: "fdiff \<Rightarrow> int \<Rightarrow> bool" where
  "diff_less PosInf n = False"
| "diff_less (FinD d) n = (d < real_of_int n)"

subsection \<open>The environment: RPC server and utilities\<close>

text \<open>
  The RPC client (\<^verbatim>\<open>self.parent.rpc\<close>), the functions of
  \<^verbatim>\<open>king_phisher.utilities\<close> and the module \<^verbatim>\<open>king_phisher.client.graphs\<close> are
  outside this module; their answers are parameters. \<open>get_graph\<close> tells whether
  \<^verbatim>\<open>graphs.get_graph\<close> finds a class of that name, \<open>graph_refresh\<close> is what
  \<^verbatim>\<open>refresh(info_cache)\<close> of the graph of that name returns. The table tabs use
  \<^verbatim>\<open>self.parent.rpc\<close> without a test; they are modelled for a parent that has it. Only
  the dashboard tests \<^verbatim>\<open>hasattr(self.parent, 'rpc')\<close>, and there it is a parameter.
\<close>

record extern =
  remote_table :: "string \<Rightarrow> pyval \<Rightarrow> pydict list"
  remote_table_row :: "string \<Rightarrow> pyval \<Rightarrow> pydict option"
  format_datetime :: "pyval \<Rightarrow> pyval"
  timedef_to_seconds :: "string \<Rightarrow> int"
  has_matplotlib :: bool
  get_graph :: "pyval \<Rightarrow> bool"
  graph_refresh :: "pyval \<Rightarrow> pydict \<Rightarrow> pydict"

subsection \<open>Effects\<close>

text \<open>
  A call that changes a GTK object. \<open>IdleAddWait c\<close> is
  \<^verbatim>\<open>gui_utilities.glib_idle_add_wait(c)\<close>: the call is handed to the GTK main loop, which
  runs it on the GUI main thread while the calling thread waits. \<open>Direct c\<close> is the call
  made in the calling thread itself.
\<close>

datatype gui_call =
    SetSensitive bool
  | SetModel
  | StoreClear
  | StoreAppend "string list"
  | GraphRefresh pyval pydict

datatype callback = LoaderIdleRoutine

datatype effect =
    IdleAddWait gui_call
  | Direct gui_call
  | LockAcquire
  | LockRelease
  | ThreadStart nat
  | ThreadJoin nat
  | RemoteTable string pyval
  | Rpc string pyval
  | ShowDialogWarning string
  | ShowDialogYesNo string string
  | RunQuickSave string
  | DialogDestroy
  | TreeviewToCsv string
  | TimeoutAddSeconds int callback
  | LogDebug string
  | LogInfo string
  | LogWarning string
  | ClipboardSetText string
  | PopupMenu

subsection \<open>\<^verbatim>\<open>CampaignViewGenericTab\<close> and its subclasses\<close>

datatype tab_class =
    CampaignViewGenericTab
  | CampaignViewDeaddropTab
  | CampaignViewCredentialsTab
  | CampaignViewVisitsTab
  | CampaignViewMessagesTab

fun remote_table_name :: "tab_class \<Rightarrow> string" where
  "remote_table_name CampaignViewGenericTab = ''''"
| "remote_table_name CampaignViewDeaddropTab = ''deaddrop_connections''"
| "remote_table_name CampaignViewCredentialsTab = ''credentials''"
| "remote_table_name CampaignViewVisitsTab = ''visits''"
| "remote_table_name CampaignViewMessagesTab = ''messages''"

fun label_text :: "tab_class \<Rightarrow> string" where
  "label_text CampaignViewGenericTab = ''Unknown''"
| "label_text CampaignViewDeaddropTab = ''Deaddrop''"
| "label_text CampaignViewCredentialsTab = ''Credentials''"
| "label_text CampaignViewVisitsTab = ''Visits''"
| "label_text CampaignViewMessagesTab = ''Messages''"

text \<open>The column names; the name at position \<open>i\<close> (from 0) is the dictionary's entry \<open>i + 1\<close>.\<close>

fun view_columns :: "tab_class \<Rightarrow> string list" where
  "view_columns CampaignViewGenericTab = []"
| "view_columns CampaignViewDeaddropTab =
     [''Destination'', ''Visit Count'', ''External IP'', ''Username'', ''Hostname'',
      ''Local IP Addresses'', ''First Hit'', ''Last Hit'']"
| "view_columns CampaignViewCredentialsTab = [''Email'', ''Username'', ''Password'', ''Submitted'']"
| "view_columns CampaignViewVisitsTab =
     [''Email'', ''Visitor IP'', ''Visitor Details'', ''Visit Count'', ''First Visit'', ''Last Visit'']"
| "view_columns CampaignViewMessagesTab = [''Email'', ''Sent'', ''Opened'', ''Trained'']"

text \<open>
  The fields the two tab classes share. \<open>threads\<close> holds \<^verbatim>\<open>is_alive()\<close> of every
  \<^verbatim>\<open>threading.Thread\<close> the tab has started, by the order of their start; a thread
  object is referred to by its position.
\<close>

record tab_base =
  config :: pydict
  last_load_time :: ftime
  refresh_frequency :: int
  threads :: "bool list"

text \<open>
  \<open>view_column_renderers\<close>: the \<^verbatim>\<open>visible\<close> property of each column, by column id.
  \<open>store\<close>: the rows of the tree view's model (\<open>None\<close> before the first load).
  \<open>sensitive\<close>: the tree view's \<^verbatim>\<open>sensitive\<close> property.
\<close>

record generic_tab = tab_base +
  tab_class :: tab_class
  view_column_renderers :: "(nat \<times> bool) list"
  row_loader_thread :: "nat option"
  is_destroyed :: bool
  store :: "string list list option"
  sensitive :: bool

text \<open>
  \<^verbatim>\<open>isinstance(t, threading.Thread) and t.is_alive()\<close> for a thread attribute that is
  \<^verbatim>\<open>None\<close> or one of the tab's threads.
\<close>

definition thread_is_alive :: "bool list \<Rightarrow> nat option \<Rightarrow> bool" where
  "thread_is_alive ts t = (case t of None \<Rightarrow> False | Some i \<Rightarrow> i < length ts \<and> ts ! i)"

text \<open>\<^verbatim>\<open>CampaignViewGenericTab.__init__\<close> (what it leaves in the object).\<close>

definition generic_init :: "extern \<Rightarrow> tab_class \<Rightarrow> pydict \<Rightarrow> generic_tab" where
  "generic_init ext cls cfg =
     \<lparr> config = cfg,
       last_load_time = NegInf,
       refresh_frequency =
         timedef_to_seconds ext (py_str (dict_get cfg ''gui.refresh_frequency'' (PStr ''5m''))),
       threads = [],
       tab_class = cls,
       view_column_renderers = map (\<lambda>column_id. (column_id, True)) [1 ..< Suc (length (view_columns cls))],
       row_loader_thread = None,
       is_destroyed = False,
       store = None,
       sensitive = True \<rparr>"

text \<open>\<^verbatim>\<open>renderer.set_property('visible', v)\<close> on \<^verbatim>\<open>view_column_renderers[k]\<close>.\<close>

definition set_visible :: "nat \<Rightarrow> bool \<Rightarrow> (nat \<times> bool) list \<Rightarrow> (nat \<times> bool) list" where
  "set_visible k v rs = map (\<lambda>(i, b). if i = k then (i, v) else (i, b)) rs"

text \<open>\<^verbatim>\<open>CampaignViewCredentialsTab.__init__\<close>.\<close>

definition credentials_init :: "extern \<Rightarrow> pydict \<Rightarrow> generic_tab" where
  "credentials_init ext cfg =
     (let self = generic_init ext CampaignViewCredentialsTab cfg
      in self\<lparr>view_column_renderers := set_visible 3 False (view_column_renderers self)\<rparr>)"

text \<open>
  \<^verbatim>\<open>CampaignViewGenericTab.load_campaign_information\<close>, run by one caller without
  interruption. \<open>now\<close> is \<^verbatim>\<open>time.time()\<close>. The lock is taken and released inside the
  call, so it is free again at the return; it shows in the effects.
\<close>

definition load_campaign_information :: "bool \<Rightarrow> real \<Rightarrow> generic_tab \<Rightarrow> generic_tab \<times> effect list" where
  "load_campaign_information force now self =
     (if \<not> force \<and> diff_less (time_sub now (last_load_time self)) (refresh_frequency self)
      then (self, [])
      else if thread_is_alive (threads self) (row_loader_thread self)
      then (self, [])
      else
        let tid = length (threads self)
        in (self\<lparr>store := Some [],
                  threads := threads self @ [True],
                  row_loader_thread := Some tid\<rparr>,
            [LockAcquire,
             Direct (if store self = None then SetModel else StoreClear),
             ThreadStart tid,
             LockRelease]))"

text \<open>
  \<^verbatim>\<open>format_row_data\<close>, by class. \<open>Inr None\<close> is the return value \<^verbatim>\<open>None\<close>.
  \<^verbatim>\<open>not details\<close> holds of \<^verbatim>\<open>None\<close> and of an empty dictionary. The lookups
  with \<^verbatim>\<open>remote_table_row\<close> (made with \<^verbatim>\<open>cache=True\<close>) read the environment; they
  are not listed among the effects.
\<close>

fun format_row_data :: "extern \<Rightarrow> tab_class \<Rightarrow> pydict \<Rightarrow> error + pyval list option" where
  "format_row_data ext CampaignViewGenericTab row = Inl NotImplementedError"
| "format_row_data ext CampaignViewDeaddropTab connection =
     (case getitem connection ''deployment_id'' of
        Inl e \<Rightarrow> Inl e
      | Inr deploy_id \<Rightarrow>
          (case remote_table_row ext ''deaddrop_deployments'' deploy_id of
             None \<Rightarrow> Inr None
           | Some deploy_details \<Rightarrow>
               if deploy_details = [] then Inr None
               else map_e Some (sequence_e
                 [getitem deploy_details ''destination'',
                  getitem connection ''visit_count'',
                  getitem connection ''visitor_ip'',
                  getitem connection ''local_username'',
                  getitem connection ''local_hostname'',
                  getitem connection ''local_ip_addresses'',
                  map_e (format_datetime ext) (getitem connection ''first_visit''),
                  map_e (format_datetime ext) (getitem connection ''last_visit'')])))"
| "format_row_data ext CampaignViewCredentialsTab credential =
     (case getitem credential ''message_id'' of
        Inl e \<Rightarrow> Inl e
      | Inr msg_id \<Rightarrow>
          (case remote_table_row ext ''messages'' msg_id of
             None \<Rightarrow> Inr None
           | Some msg_details \<Rightarrow>
               if msg_details = [] then Inr None
               else map_e Some (sequence_e
                 [getitem msg_details ''target_email'',
                  getitem credential ''username'',
                  getitem credential ''password'',
                  map_e (format_datetime ext) (getitem credential ''submitted'')])))"
| "format_row_data ext CampaignViewVisitsTab visit =
     (case getitem visit ''message_id'' of
        Inl e \<Rightarrow> Inl e
      | Inr msg_id \<Rightarrow>
          (case remote_table_row ext ''messages'' msg_id of
             None \<Rightarrow> Inr None
           | Some msg_details \<Rightarrow>
               if msg_details = [] then Inr None
               else map_e Some (sequence_e
                 [getitem msg_details ''target_email'',
                  getitem visit ''visitor_ip'',
                  getitem visit ''visitor_details'',
                  getitem visit ''visit_count'',
                  map_e (format_datetime ext) (getitem visit ''first_visit''),
                  map_e (format_datetime ext) (getitem visit ''last_visit'')])))"
| "format_row_data ext CampaignViewMessagesTab message =
     map_e Some (sequence_e
       [getitem message ''target_email'',
        map_e (format_datetime ext) (getitem message ''sent''),
        map_e (format_datetime ext) (getitem message ''opened''),
        map_e (\<lambda>trained. PStr (if truthy trained then ''Yes'' else [])) (getitem message ''trained'')])"

declare format_row_data.simps [simp del]

text \<open>How a method ends: at its last line, at the \<^verbatim>\<open>return\<close> under the
  \<^verbatim>\<open>is_destroyed\<close> test, or with an exception.\<close>

datatype outcome = Finished | Destroyed | Raised error

text \<open>
  What the loop of \<^verbatim>\<open>row_loader_thread_routine\<close> meets, in order: the next row of the
  remote table, or the GUI thread's \<^verbatim>\<open>signal_destroy\<close> setting \<^verbatim>\<open>is_destroyed\<close> in
  between two rows. Here the lines for one row are one step; a signal that comes between
  the test of line 186 and the append of line 188 is in the line by line model further
  down.
\<close>

datatype loader_item = Fetched pydict | DestroySignal

text \<open>The row given to \<^verbatim>\<open>store.append\<close>: lines 184 and 185.\<close>

definition store_row :: "pyval \<Rightarrow> pyval list \<Rightarrow> string list" where
  "store_row row_id row_data =
     py_str row_id # map (\<lambda>x. if x = PNone then [] else py_str x) row_data"

text \<open>The \<^verbatim>\<open>for\<close> loop of \<^verbatim>\<open>row_loader_thread_routine\<close> (lines 178 to 188).\<close>

fun row_loader_loop :: "extern \<Rightarrow> generic_tab \<Rightarrow> loader_item list \<Rightarrow> generic_tab \<times> effect list \<times> outcome" where
  "row_loader_loop ext self [] = (self, [], Finished)"
| "row_loader_loop ext self (DestroySignal # rest) =
     row_loader_loop ext (self\<lparr>is_destroyed := True\<rparr>) rest"
| "row_loader_loop ext self (Fetched row_data # rest) =
     (case getitem row_data ''id'' of
        Inl e \<Rightarrow> (self, [], Raised e)
      | Inr row_id \<Rightarrow>
          (case format_row_data ext (tab_class self) row_data of
             Inl e \<Rightarrow> (self, [], Raised e)
           | Inr None \<Rightarrow>
               (case row_loader_loop ext self rest of
                  (self', es, out) \<Rightarrow>
                    (self', Rpc (remote_table_name (tab_class self) @ ''/delete'') row_id # es, out))
           | Inr (Some formatted) \<Rightarrow>
               if is_destroyed self then (self, [], Destroyed)
               else
                 (case row_loader_loop ext
                         (self\<lparr>store := map_option (\<lambda>rows. rows @ [store_row row_id formatted]) (store self)\<rparr>)
                         rest of
                    (self', es, out) \<Rightarrow>
                      (self', IdleAddWait (StoreAppend (store_row row_id formatted)) # es, out))))"

text \<open>
  The rows of the remote table, with the destroy signal (if it comes during this load)
  arriving when \<open>k\<close> rows have been handled.
\<close>

definition interleave :: "nat option \<Rightarrow> pydict list \<Rightarrow> loader_item list" where
  "interleave destroy_at rows =
     (case destroy_at of
        None \<Rightarrow> map Fetched rows
      | Some k \<Rightarrow> map Fetched (take k rows) @ DestroySignal # map Fetched (drop k rows))"

text \<open>
  \<^verbatim>\<open>row_loader_thread_routine\<close>, the target of the loader thread. \<open>now\<close> is
  \<^verbatim>\<open>time.time()\<close> at line 190. The store it appends to is the tree view's model, which
  \<^verbatim>\<open>load_campaign_information\<close> passes to the thread.
\<close>

definition row_loader_thread_routine ::
    "extern \<Rightarrow> real \<Rightarrow> nat option \<Rightarrow> generic_tab \<Rightarrow> generic_tab \<times> effect list \<times> outcome" where
  "row_loader_thread_routine ext now destroy_at self =
     (let self1 = self\<lparr>sensitive := False\<rparr>
      in case getitem (config self) ''campaign_id'' of
           Inl e \<Rightarrow> (self1, [IdleAddWait (SetSensitive False)], Raised e)
         | Inr campaign_id \<Rightarrow>
             let table = ''campaign/'' @ remote_table_name (tab_class self);
                 rows = remote_table ext table campaign_id
             in (case row_loader_loop ext self1 (interleave destroy_at rows) of
                   (self2, es, Finished) \<Rightarrow>
                     (self2\<lparr>sensitive := True, last_load_time := Fin now\<rparr>,
                      IdleAddWait (SetSensitive False) # RemoteTable table campaign_id # es
                        @ [IdleAddWait (SetSensitive True)],
                      Finished)
                 | (self2, es, out) \<Rightarrow>
                     (self2,
                      IdleAddWait (SetSensitive False) # RemoteTable table campaign_id # es,
                      out)))"

text \<open>
  The loader thread from its start to its end: it runs the routine and is no longer
  alive when the routine has returned or raised.
\<close>

definition loader_thread_run ::
    "extern \<Rightarrow> real \<Rightarrow> nat option \<Rightarrow> generic_tab \<Rightarrow> generic_tab \<times> effect list \<times> outcome" where
  "loader_thread_run ext now destroy_at self =
     (case row_loader_thread_routine ext now destroy_at self of
        (self', es, out) \<Rightarrow>
          (case row_loader_thread self' of
             None \<Rightarrow> (self', es, out)
           | Some tid \<Rightarrow> (self'\<lparr>threads := (threads self')[tid := False]\<rparr>, es, out)))"

text \<open>
  \<^verbatim>\<open>model.get_value(tree_iter, column)\<close>: the selected row is given by its cells, and a
  row of the store has a cell for every column.
\<close>

definition get_value :: "string list \<Rightarrow> nat \<Rightarrow> string" where
  "get_value cells column = cells ! column"

text \<open>
  \<^verbatim>\<open>_prompt_to_delete_row\<close>. \<open>tree_iter\<close> is the selection (\<open>None\<close> when no row is
  selected), \<open>answer\<close> what the user answers in the yes/no dialog.
\<close>

definition prompt_to_delete_row ::
    "real \<Rightarrow> string list option \<Rightarrow> bool \<Rightarrow> generic_tab \<Rightarrow> generic_tab \<times> effect list" where
  "prompt_to_delete_row now tree_iter answer self =
     (if thread_is_alive (threads self) (row_loader_thread self)
      then (self, [ShowDialogWarning ''Can Not Delete Rows While Loading''])
      else case tree_iter of
        None \<Rightarrow> (self, [])
      | Some cells \<Rightarrow>
          let row_id = get_value cells 0
          in if \<not> answer
             then (self, [ShowDialogYesNo ''Delete This Row?'' ''This information will be lost.''])
             else
               (case load_campaign_information True now self of
                  (self', es) \<Rightarrow>
                    (self',
                     [ShowDialogYesNo ''Delete This Row?'' ''This information will be lost.'',
                      Rpc (remote_table_name (tab_class self) @ ''/delete'') (PStr row_id)] @ es)))"

definition signal_button_clicked_refresh :: "real \<Rightarrow> generic_tab \<Rightarrow> generic_tab \<times> effect list" where
  "signal_button_clicked_refresh now self = load_campaign_information True now self"

text \<open>
  \<^verbatim>\<open>signal_button_clicked_export\<close>. \<open>response\<close> is what \<^verbatim>\<open>run_quick_save\<close> returns:
  \<^verbatim>\<open>None\<close> or a dictionary.
\<close>

definition signal_button_clicked_export ::
    "pydict option \<Rightarrow> generic_tab \<Rightarrow> generic_tab \<times> effect list \<times> outcome" where
  "signal_button_clicked_export response self =
     (if thread_is_alive (threads self) (row_loader_thread self)
      then (self, [ShowDialogWarning ''Can Not Export Rows While Loading''], Finished)
      else case getitem (config self) ''campaign_name'' of
        Inl e \<Rightarrow> (self, [], Raised e)
      | Inr campaign_name \<Rightarrow>
          (case str_add campaign_name ''.csv'' of
             Inl e \<Rightarrow> (self, [], Raised e)
           | Inr file_name \<Rightarrow>
               (case response of
                  None \<Rightarrow> (self, [RunQuickSave file_name, DialogDestroy], Finished)
                | Some r \<Rightarrow>
                    if r = [] then (self, [RunQuickSave file_name, DialogDestroy], Finished)
                    else
                      (case getitem r ''target_path'' of
                         Inl e \<Rightarrow> (self, [RunQuickSave file_name, DialogDestroy], Raised e)
                       | Inr destination_file \<Rightarrow>
                           (self,
                            [RunQuickSave file_name, DialogDestroy,
                             TreeviewToCsv (py_str destination_file)],
                            Finished)))))"

text \<open>
  \<^verbatim>\<open>signal_destroy\<close>. \<^verbatim>\<open>join()\<close> returns when the thread has ended, so the thread is
  not alive afterwards.
\<close>

definition signal_destroy :: "generic_tab \<Rightarrow> generic_tab \<times> effect list" where
  "signal_destroy self =
     (let self1 = self\<lparr>is_destroyed := True\<rparr>
      in case row_loader_thread self1 of
           None \<Rightarrow> (self1, [])
         | Some tid \<Rightarrow>
             if thread_is_alive (threads self1) (Some tid)
             then (self1\<lparr>threads := (threads self1)[tid := False]\<rparr>, [ThreadJoin tid])
             else (self1, []))"

datatype event_type = BUTTON_PRESS | KEY_PRESS | OTHER_EVENT

datatype key = KEY_F5 | KEY_Delete | KEY_other

record gdk_event =
  ev_type :: event_type
  button :: nat
  keyval :: key

text \<open>\<^verbatim>\<open>signal_treeview_button_pressed\<close>; the result is \<^verbatim>\<open>True\<close> or \<^verbatim>\<open>None\<close>.\<close>

definition signal_treeview_button_pressed ::
    "gdk_event \<Rightarrow> string list option \<Rightarrow> generic_tab \<Rightarrow> generic_tab \<times> effect list \<times> bool option" where
  "signal_treeview_button_pressed event tree_iter self =
     (if \<not> (ev_type event = BUTTON_PRESS \<and> button event = 3) then (self, [], None)
      else if tree_iter = None then (self, [], None)
      else (self, [PopupMenu], Some True))"

text \<open>\<^verbatim>\<open>signal_treeview_key_pressed\<close>.\<close>

definition signal_treeview_key_pressed ::
    "real \<Rightarrow> gdk_event \<Rightarrow> string list option \<Rightarrow> bool \<Rightarrow> generic_tab \<Rightarrow> generic_tab \<times> effect list" where
  "signal_treeview_key_pressed now event tree_iter answer self =
     (if ev_type event \<noteq> KEY_PRESS then (self, [])
      else if keyval event = KEY_F5 then load_campaign_information True now self
      else if keyval event = KEY_Delete then prompt_to_delete_row now tree_iter answer self
      else (self, []))"

text \<open>\<^verbatim>\<open>signal_activate_popup_menu_copy\<close>.\<close>

definition signal_activate_popup_menu_copy ::
    "nat \<Rightarrow> string list option \<Rightarrow> generic_tab \<Rightarrow> generic_tab \<times> effect list" where
  "signal_activate_popup_menu_copy column_id tree_iter self =
     (case tree_iter of
        None \<Rightarrow> (self, [])
      | Some cells \<Rightarrow> (self, [ClipboardSetText (get_value cells column_id)]))"

text \<open>
  \<^verbatim>\<open>CampaignViewCredentialsTab.signal_button_toggled_show_passwords\<close>; \<open>active\<close> is
  the button's \<^verbatim>\<open>active\<close> property. \<^verbatim>\<open>view_column_renderers[3]\<close> raises KeyError
  when there is no column 3.
\<close>

definition signal_button_toggled_show_passwords :: "bool \<Rightarrow> generic_tab \<Rightarrow> error + generic_tab" where
  "signal_button_toggled_show_passwords active self =
     (case map_of (view_column_renderers self) 3 of
        None \<Rightarrow> Inl (KeyError ''3'')
      | Some _ \<Rightarrow>
          Inr (self\<lparr>view_column_renderers := set_visible 3 active (view_column_renderers self)\<rparr>))"

subsection \<open>\<^verbatim>\<open>CampaignViewDashboardTab\<close>\<close>

text \<open>\<open>graphs\<close>: the graph instances, each by the name it was looked up with.\<close>

record dashboard_tab = tab_base +
  loader_thread :: "nat option"
  graphs :: "pyval list"

text \<open>\<^verbatim>\<open>'literal' + x\<close>: defined on strings only.\<close>

fun lit_add :: "string \<Rightarrow> pyval \<Rightarrow> error + string" where
  "lit_add a (PStr b) = Inr (a @ b)"
| "lit_add a _ = Inl TypeError"

text \<open>
  The keys of \<^verbatim>\<open>dash_ports\<close>, in the order the source writes them (the order in which a
  Python 2 dictionary is walked is not fixed by the language).
\<close>

definition dash_ports :: "string list" where
  "dash_ports = [''top_left'', ''top_right'', ''bottom'']"

text \<open>The loop of \<^verbatim>\<open>CampaignViewDashboardTab.__init__\<close> (lines 338 to 347).\<close>

fun dash_ports_loop :: "extern \<Rightarrow> pydict \<Rightarrow> string list \<Rightarrow> error + (pyval list \<times> effect list)" where
  "dash_ports_loop ext cfg [] = Inr ([], [])"
| "dash_ports_loop ext cfg (dash_port # rest) =
     (case getitem cfg (''dashboard.'' @ dash_port) of
        Inl e \<Rightarrow> Inl e
      | Inr graph_name \<Rightarrow>
          if \<not> get_graph ext graph_name
          then (case lit_add ''could not get graph: '' graph_name of
                  Inl e \<Rightarrow> Inl e
                | Inr msg \<Rightarrow>
                    (case dash_ports_loop ext cfg rest of
                       Inl e \<Rightarrow> Inl e
                     | Inr (gs, es) \<Rightarrow> Inr (gs, LogWarning msg # es)))
          else (case dash_ports_loop ext cfg rest of
                  Inl e \<Rightarrow> Inl e
                | Inr (gs, es) \<Rightarrow> Inr (graph_name # gs, es)))"

text \<open>\<^verbatim>\<open>CampaignViewDashboardTab.__init__\<close>.\<close>

definition dashboard_init :: "extern \<Rightarrow> pydict \<Rightarrow> error + (dashboard_tab \<times> effect list)" where
  "dashboard_init ext cfg =
     (let rf = timedef_to_seconds ext (py_str (dict_get cfg ''gui.refresh_frequency'' (PStr ''5m'')))
      in case dash_ports_loop ext cfg dash_ports of
           Inl e \<Rightarrow> Inl e
         | Inr (gs, es) \<Rightarrow>
             Inr (\<lparr> config = cfg,
                    last_load_time = NegInf,
                    refresh_frequency = rf,
                    threads = [],
                    loader_thread = None,
                    graphs = gs \<rparr>,
                  LogDebug (''dashboard refresh frequency set to '' @ py_str (PInt rf) @ '' seconds'')
                    # es @ [TimeoutAddSeconds rf LoaderIdleRoutine]))"

text \<open>
  \<^verbatim>\<open>CampaignViewDashboardTab.load_campaign_information\<close>. \<open>has_rpc\<close> is
  \<^verbatim>\<open>hasattr(self.parent, 'rpc')\<close>.
\<close>

definition dashboard_load_campaign_information ::
    "bool \<Rightarrow> real \<Rightarrow> bool \<Rightarrow> dashboard_tab \<Rightarrow> dashboard_tab \<times> effect list" where
  "dashboard_load_campaign_information force now has_rpc self =
     (if \<not> force \<and> diff_less (time_sub now (last_load_time self)) (refresh_frequency self)
      then (self, [])
      else if \<not> has_rpc
      then (self, [LogWarning ''skipping load_campaign_information because rpc is not initialized''])
      else if thread_is_alive (threads self) (loader_thread self)
      then (self, [LockAcquire, LockRelease])
      else
        let tid = length (threads self)
        in (self\<lparr>threads := threads self @ [True], loader_thread := Some tid\<rparr>,
            [LockAcquire, ThreadStart tid, LockRelease]))"

text \<open>\<^verbatim>\<open>loader_idle_routine\<close>, the handler of the timeout; the last component is its
  return value.\<close>

definition loader_idle_routine ::
    "real \<Rightarrow> bool \<Rightarrow> dashboard_tab \<Rightarrow> dashboard_tab \<times> effect list \<times> bool" where
  "loader_idle_routine now has_rpc self =
     (case dashboard_load_campaign_information True now has_rpc self of
        (self', es) \<Rightarrow> (self', LogDebug ''idle loader routine called'' # es, True))"

text \<open>The loop of \<^verbatim>\<open>loader_thread_routine\<close>: the effects and the last \<^verbatim>\<open>info_cache\<close>.\<close>

fun refresh_graphs :: "extern \<Rightarrow> pyval list \<Rightarrow> pydict \<Rightarrow> effect list \<times> pydict" where
  "refresh_graphs ext [] info_cache = ([], info_cache)"
| "refresh_graphs ext (graph # rest) info_cache =
     (case refresh_graphs ext rest (graph_refresh ext graph info_cache) of
        (es, c) \<Rightarrow> (IdleAddWait (GraphRefresh graph info_cache) # es, c))"

text \<open>\<^verbatim>\<open>CampaignViewDashboardTab.loader_thread_routine\<close>; \<open>now\<close> is \<^verbatim>\<open>time.time()\<close> at
  line 383.\<close>

definition loader_thread_routine :: "extern \<Rightarrow> real \<Rightarrow> dashboard_tab \<Rightarrow> dashboard_tab \<times> effect list" where
  "loader_thread_routine ext now self =
     (self\<lparr>last_load_time := Fin now\<rparr>, fst (refresh_graphs ext (graphs self) []))"

definition dashboard_signal_button_clicked_refresh ::
    "real \<Rightarrow> bool \<Rightarrow> dashboard_tab \<Rightarrow> dashboard_tab \<times> effect list" where
  "dashboard_signal_button_clicked_refresh now has_rpc self =
     dashboard_load_campaign_information True now has_rpc self"

subsection \<open>\<^verbatim>\<open>CampaignViewTab\<close>\<close>

datatype sub_tab = GenericTab generic_tab | DashboardTab dashboard_tab

text \<open>\<^verbatim>\<open>d[k] = v\<close> on a dictionary kept as a list of its items.\<close>

fun setitem :: "('k \<times> 'v) list \<Rightarrow> 'k \<Rightarrow> 'v \<Rightarrow> ('k \<times> 'v) list" where
  "setitem [] k v = [(k, v)]"
| "setitem ((k', v') # d) k v = (if k' = k then (k, v) # d else (k', v') # setitem d k v)"

text \<open>\<open>notebook\<close>: the labels of the notebook's pages, in the order of
  \<^verbatim>\<open>append_page\<close>.\<close>

record campaign_view_tab =
  cvt_config :: pydict
  tabs :: "(string \<times> sub_tab) list"
  notebook :: "string list"
  last_page_id :: int

text \<open>The class called with \<^verbatim>\<open>(self.config, self.parent)\<close>.\<close>

definition new_tab :: "extern \<Rightarrow> tab_class \<Rightarrow> pydict \<Rightarrow> generic_tab" where
  "new_tab ext cls cfg =
     (if cls = CampaignViewCredentialsTab then credentials_init ext cfg
      else generic_init ext cls cfg)"

text \<open>Lines 474 to 488: the four table tabs, added to what lines 466 to 472 left.\<close>

definition add_table_tabs :: "extern \<Rightarrow> campaign_view_tab \<Rightarrow> campaign_view_tab" where
  "add_table_tabs ext self =
     (let messages_tab = new_tab ext CampaignViewMessagesTab (cvt_config self);
          self1 = self\<lparr>tabs := setitem (tabs self) ''messages'' (GenericTab messages_tab),
                       notebook := notebook self @ [label_text (tab_class messages_tab)]\<rparr>;
          visits_tab = new_tab ext CampaignViewVisitsTab (cvt_config self);
          self2 = self1\<lparr>tabs := setitem (tabs self1) ''visits'' (GenericTab visits_tab),
                        notebook := notebook self1 @ [label_text (tab_class visits_tab)]\<rparr>;
          credentials_tab = new_tab ext CampaignViewCredentialsTab (cvt_config self);
          self3 = self2\<lparr>tabs := setitem (tabs self2) ''credentials'' (GenericTab credentials_tab),
                        notebook := notebook self2 @ [label_text (tab_class credentials_tab)]\<rparr>;
          deaddrop_connections_tab = new_tab ext CampaignViewDeaddropTab (cvt_config self)
      in self3\<lparr>tabs := setitem (tabs self3) ''deaddrop_connections'' (GenericTab deaddrop_connections_tab),
                notebook := notebook self3 @ [label_text (tab_class deaddrop_connections_tab)]\<rparr>)"

text \<open>\<^verbatim>\<open>CampaignViewTab.__init__\<close>; \<^verbatim>\<open>get_current_page()\<close> of an empty notebook is -1.\<close>

definition campaign_view_tab_init :: "extern \<Rightarrow> pydict \<Rightarrow> error + (campaign_view_tab \<times> effect list)" where
  "campaign_view_tab_init ext cfg =
     (let self = \<lparr> cvt_config = cfg, tabs = [], notebook = [], last_page_id = - 1 \<rparr>
      in if has_matplotlib ext
         then (case dashboard_init ext cfg of
                 Inl e \<Rightarrow> Inl e
               | Inr (dashboard_tab, es) \<Rightarrow>
                   Inr (add_table_tabs ext
                          (self\<lparr>tabs := setitem (tabs self) ''dashboard'' (DashboardTab dashboard_tab),
                                notebook := notebook self @ [''Dashboard'']\<rparr>),
                        LogInfo ''matplotlib is installed, dashboard will be available'' # es))
         else Inr (add_table_tabs ext self,
                   [LogWarning ''matplotlib is not installed, dashboard will not be available'']))"

text \<open>\<^verbatim>\<open>tab.load_campaign_information(force)\<close> on a sub-tab of either class.\<close>

fun sub_tab_load :: "bool \<Rightarrow> real \<Rightarrow> bool \<Rightarrow> sub_tab \<Rightarrow> sub_tab \<times> effect list" where
  "sub_tab_load force now has_rpc (GenericTab t) =
     (case load_campaign_information force now t of (t', es) \<Rightarrow> (GenericTab t', es))"
| "sub_tab_load force now has_rpc (DashboardTab t) =
     (case dashboard_load_campaign_information force now has_rpc t of (t', es) \<Rightarrow> (DashboardTab t', es))"

text \<open>\<^verbatim>\<open>signal_kpc_campaign_set\<close>: every sub-tab is loaded with \<^verbatim>\<open>force=True\<close>.\<close>

fun load_all :: "real \<Rightarrow> bool \<Rightarrow> (string \<times> sub_tab) list \<Rightarrow> (string \<times> sub_tab) list \<times> effect list" where
  "load_all now has_rpc [] = ([], [])"
| "load_all now has_rpc ((tab_name, tab) # rest) =
     (case sub_tab_load True now has_rpc tab of
        (tab', es) \<Rightarrow>
          (case load_all now has_rpc rest of
             (rest', es') \<Rightarrow> ((tab_name, tab') # rest', es @ es')))"

definition signal_kpc_campaign_set :: "real \<Rightarrow> bool \<Rightarrow> campaign_view_tab \<Rightarrow> campaign_view_tab \<times> effect list" where
  "signal_kpc_campaign_set now has_rpc self =
     (case load_all now has_rpc (tabs self) of (ts, es) \<Rightarrow> (self\<lparr>tabs := ts\<rparr>, es))"

text \<open>
  \<^verbatim>\<open>_tab_changed\<close>: \<open>current_page\<close> is given by the name of the sub-tab whose box it is,
  \<open>index\<close> is its page number. The sub-tab now shown is loaded without \<^verbatim>\<open>force\<close>.
\<close>

fun load_page :: "real \<Rightarrow> string \<Rightarrow> (string \<times> sub_tab) list \<Rightarrow> (string \<times> sub_tab) list \<times> effect list" where
  "load_page now current_page [] = ([], [])"
| "load_page now current_page ((tab_name, tab) # rest) =
     (case load_page now current_page rest of
        (rest', es') \<Rightarrow>
          if current_page \<noteq> tab_name then ((tab_name, tab) # rest', es')
          else (case sub_tab_load False now True tab of
                  (tab', es) \<Rightarrow> ((tab_name, tab') # rest', es @ es')))"

definition tab_changed ::
    "real \<Rightarrow> bool \<Rightarrow> string \<Rightarrow> int \<Rightarrow> campaign_view_tab \<Rightarrow> campaign_view_tab \<times> effect list" where
  "tab_changed now has_rpc current_page index self =
     (if \<not> has_rpc then (self, [])
      else case load_page now current_page (tabs self) of
             (ts, es) \<Rightarrow> (self\<lparr>tabs := ts, last_page_id := index\<rparr>, es))"

subsection \<open>\<^verbatim>\<open>load_campaign_information\<close> line by line, for several callers\<close>

text \<open>
  The same two methods as steps of a caller, one step for each of the source lines that
  reads or writes what the callers share: the thread attribute, the threads and the lock.
  A configuration holds the tab, the lock and the line each caller is at; a schedule
  names the caller that takes the next step. A caller at \<^verbatim>\<open>acquire()\<close> of a lock that is
  held does not move.
\<close>

datatype pc = L151 | L153 | L155 | L156 | L165 | L167 | Returned

record generic_conf =
  tab :: generic_tab
  lock_held :: bool
  callers :: "pc list"

definition generic_step :: "bool \<Rightarrow> real \<Rightarrow> nat \<Rightarrow> generic_conf \<Rightarrow> generic_conf" where
  "generic_step force now c conf =
     (if length (callers conf) \<le> c then conf
      else
        let self = tab conf
        in case callers conf ! c of
             L151 \<Rightarrow>
               if \<not> force \<and> diff_less (time_sub now (last_load_time self)) (refresh_frequency self)
               then conf\<lparr>callers := (callers conf)[c := Returned]\<rparr>
               else conf\<lparr>callers := (callers conf)[c := L153]\<rparr>
           | L153 \<Rightarrow>
               if thread_is_alive (threads self) (row_loader_thread self)
               then conf\<lparr>callers := (callers conf)[c := Returned]\<rparr>
               else conf\<lparr>callers := (callers conf)[c := L155]\<rparr>
           | L155 \<Rightarrow>
               if lock_held conf then conf
               else conf\<lparr>lock_held := True, callers := (callers conf)[c := L156]\<rparr>
           | L156 \<Rightarrow>
               conf\<lparr>tab := self\<lparr>store := Some []\<rparr>, callers := (callers conf)[c := L165]\<rparr>
           | L165 \<Rightarrow>
               conf\<lparr>tab := self\<lparr>threads := threads self @ [True],
                                 row_loader_thread := Some (length (threads self))\<rparr>,
                    callers := (callers conf)[c := L167]\<rparr>
           | L167 \<Rightarrow> conf\<lparr>lock_held := False, callers := (callers conf)[c := Returned]\<rparr>
           | Returned \<Rightarrow> conf)"

fun generic_run :: "bool \<Rightarrow> real \<Rightarrow> nat list \<Rightarrow> generic_conf \<Rightarrow> generic_conf" where
  "generic_run force now [] conf = conf"
| "generic_run force now (c # schedule) conf =
     generic_run force now schedule (generic_step force now c conf)"

text \<open>\<open>n\<close> callers at the first line of the method, the lock free.\<close>

definition generic_calls :: "nat \<Rightarrow> generic_tab \<Rightarrow> generic_conf" where
  "generic_calls n self = \<lparr> tab = self, lock_held = False, callers = replicate n L151 \<rparr>"

text \<open>
  The dashboard's method. Its lock is an \<^verbatim>\<open>RLock\<close>, held by a caller; the
  \<^verbatim>\<open>with\<close> statement releases it at its end and at the \<^verbatim>\<open>return\<close> inside it.
\<close>

datatype dpc = D361 | D363 | D366 | D367 | D369 | D370 | DReturned

record dashboard_conf =
  dtab :: dashboard_tab
  lock_owner :: "nat option"
  dcallers :: "dpc list"

definition dashboard_step :: "bool \<Rightarrow> real \<Rightarrow> bool \<Rightarrow> nat \<Rightarrow> dashboard_conf \<Rightarrow> dashboard_conf" where
  "dashboard_step force now has_rpc c conf =
     (if length (dcallers conf) \<le> c then conf
      else
        let self = dtab conf
        in case dcallers conf ! c of
             D361 \<Rightarrow>
               if \<not> force \<and> diff_less (time_sub now (last_load_time self)) (refresh_frequency self)
               then conf\<lparr>dcallers := (dcallers conf)[c := DReturned]\<rparr>
               else conf\<lparr>dcallers := (dcallers conf)[c := D363]\<rparr>
           | D363 \<Rightarrow>
               if \<not> has_rpc
               then conf\<lparr>dcallers := (dcallers conf)[c := DReturned]\<rparr>
               else conf\<lparr>dcallers := (dcallers conf)[c := D366]\<rparr>
           | D366 \<Rightarrow>
               if lock_owner conf = None \<or> lock_owner conf = Some c
               then conf\<lparr>lock_owner := Some c, dcallers := (dcallers conf)[c := D367]\<rparr>
               else conf
           | D367 \<Rightarrow>
               if thread_is_alive (threads self) (loader_thread self)
               then conf\<lparr>lock_owner := None, dcallers := (dcallers conf)[c := DReturned]\<rparr>
               else conf\<lparr>dcallers := (dcallers conf)[c := D369]\<rparr>
           | D369 \<Rightarrow>
               conf\<lparr>dtab := self\<lparr>threads := threads self @ [True],
                                  loader_thread := Some (length (threads self))\<rparr>,
                    dcallers := (dcallers conf)[c := D370]\<rparr>
           | D370 \<Rightarrow> conf\<lparr>lock_owner := None, dcallers := (dcallers conf)[c := DReturned]\<rparr>
           | DReturned \<Rightarrow> conf)"

fun dashboard_run :: "bool \<Rightarrow> real \<Rightarrow> bool \<Rightarrow> nat list \<Rightarrow> dashboard_conf \<Rightarrow> dashboard_conf" where
  "dashboard_run force now has_rpc [] conf = conf"
| "dashboard_run force now has_rpc (c # schedule) conf =
     dashboard_run force now has_rpc schedule (dashboard_step force now has_rpc c conf)"

definition dashboard_calls :: "nat \<Rightarrow> dashboard_tab \<Rightarrow> dashboard_conf" where
  "dashboard_calls n self = \<lparr> dtab = self, lock_owner = None, dcallers = replicate n D361 \<rparr>"

text \<open>The number of threads that are alive.\<close>

definition alive_count :: "bool list \<Rightarrow> nat" where
  "alive_count ts = length (filter (\<lambda>a. a) ts)"

subsection \<open>Reading a list of effects\<close>

text \<open>The rows given to \<^verbatim>\<open>store.append\<close>, the ids given to the delete RPC of a table,
  and the calls made in the calling thread itself.\<close>

fun store_appends :: "effect list \<Rightarrow> string list list" where
  "store_appends [] = []"
| "store_appends (IdleAddWait (StoreAppend r) # es) = r # store_appends es"
| "store_appends (Direct (StoreAppend r) # es) = r # store_appends es"
| "store_appends (e # es) = store_appends es"

fun deleted_ids :: "string \<Rightarrow> effect list \<Rightarrow> pyval list" where
  "deleted_ids table [] = []"
| "deleted_ids table (Rpc m row_id # es) =
     (if m = table @ ''/delete'' then row_id # deleted_ids table es else deleted_ids table es)"
| "deleted_ids table (e # es) = deleted_ids table es"

fun direct_calls :: "effect list \<Rightarrow> gui_call list" where
  "direct_calls [] = []"
| "direct_calls (Direct c # es) = c # direct_calls es"
| "direct_calls (e # es) = direct_calls es"

fun idle_calls :: "effect list \<Rightarrow> gui_call list" where
  "idle_calls [] = []"
| "idle_calls (IdleAddWait c # es) = c # idle_calls es"
| "idle_calls (e # es) = idle_calls es"

fun is_rpc_effect :: "effect \<Rightarrow> bool" where
  "is_rpc_effect (RemoteTable t c) = True"
| "is_rpc_effect (Rpc m a) = True"
| "is_rpc_effect e = False"

text \<open>
  The thread an effect of a loader routine is executed on: what goes through
  \<^verbatim>\<open>glib_idle_add_wait\<close> is run by the GTK main loop on the GUI main thread, everything
  else by the thread that runs the routine.
\<close>

datatype thread_kind = MainThread | WorkerThread

fun executed_on :: "effect \<Rightarrow> thread_kind" where
  "executed_on (IdleAddWait c) = MainThread"
| "executed_on e = WorkerThread"

subsection \<open>A small campaign\<close>

definition demo_config :: pydict where
  "demo_config =
     [(''campaign_id'', PInt 7), (''campaign_name'', PStr ''demo''),
      (''gui.refresh_frequency'', PStr ''5m''),
      (''dashboard.top_left'', PStr ''Overview''),
      (''dashboard.top_right'', PStr ''VisitorInfo''),
      (''dashboard.bottom'', PStr ''VisitsTimeline'')]"

text \<open>Two credentials: the first belongs to message \<open>m1\<close>, the second to a message that
  the server no longer has.\<close>

definition demo_credential_1 :: pydict where
  "demo_credential_1 =
     [(''id'', PInt 1), (''message_id'', PStr ''m1''), (''username'', PStr ''alice''),
      (''password'', PStr ''secret''), (''submitted'', PStr ''2014-03-01'')]"

definition demo_credential_2 :: pydict where
  "demo_credential_2 =
     [(''id'', PInt 2), (''message_id'', PStr ''m9''), (''username'', PStr ''bob''),
      (''password'', PNone), (''submitted'', PStr ''2014-03-02'')]"

definition demo_credentials :: "pydict list" where
  "demo_credentials = [demo_credential_1, demo_credential_2]"

definition demo_ext :: extern where
  "demo_ext =
     \<lparr> remote_table = (\<lambda>table campaign_id.
         if table = ''campaign/credentials'' \<and> campaign_id = PInt 7 then demo_credentials else []),
       remote_table_row = (\<lambda>table row_id.
         if table = ''messages'' \<and> row_id = PStr ''m1''
         then Some [(''id'', PStr ''m1''), (''target_email'', PStr ''alice@example.com'')]
         else None),
       format_datetime = (\<lambda>v. v),
       timedef_to_seconds = (\<lambda>s. if s = ''5m'' then 300 else 0),
       has_matplotlib = True,
       get_graph = (\<lambda>name. name \<noteq> PStr ''VisitorInfo''),
       graph_refresh = (\<lambda>name info_cache. info_cache) \<rparr>"

definition demo_tab :: generic_tab where
  "demo_tab = credentials_init demo_ext demo_config"

text \<open>The tab while its first load is running, and the row of the first credential.\<close>

definition demo_loading :: generic_tab where
  "demo_loading = fst (load_campaign_information True 5 demo_tab)"

definition demo_row_1 :: "string list" where
  "demo_row_1 = [''1'', ''alice@example.com'', ''alice'', ''secret'', ''2014-03-01'']"

definition demo_dashboard :: dashboard_tab where
  "demo_dashboard =
     \<lparr> config = demo_config, last_load_time = NegInf, refresh_frequency = 300, threads = [],
       loader_thread = None, graphs = [PStr ''Overview'', PStr ''VisitsTimeline''] \<rparr>"

subsection \<open>The life of a table tab\<close>

text \<open>
  What can happen to a table tab after its construction: a call of one of its methods,
  with what the method reads from its environment, or its loader thread running to its
  end. The toggle handler exists on the credentials tab; an exception of a handler leaves
  the tab as it is.
\<close>

datatype tab_op =
    OpLoad bool real
  | OpLoaderRun real "nat option"
  | OpPromptToDeleteRow real "string list option" bool
  | OpClickedRefresh real
  | OpClickedExport "pydict option"
  | OpDestroy
  | OpButtonPressed gdk_event "string list option"
  | OpKeyPressed real gdk_event "string list option" bool
  | OpPopupMenuCopy nat "string list option"
  | OpToggledShowPasswords bool

fun apply_op :: "extern \<Rightarrow> tab_op \<Rightarrow> generic_tab \<Rightarrow> generic_tab" where
  "apply_op ext (OpLoad force now) self = fst (load_campaign_information force now self)"
| "apply_op ext (OpLoaderRun now destroy_at) self =
     (if thread_is_alive (threads self) (row_loader_thread self)
      then fst (loader_thread_run ext now destroy_at self) else self)"
| "apply_op ext (OpPromptToDeleteRow now tree_iter answer) self =
     fst (prompt_to_delete_row now tree_iter answer self)"
| "apply_op ext (OpClickedRefresh now) self = fst (signal_button_clicked_refresh now self)"
| "apply_op ext (OpClickedExport response) self = fst (signal_button_clicked_export response self)"
| "apply_op ext OpDestroy self = fst (signal_destroy self)"
| "apply_op ext (OpButtonPressed event tree_iter) self =
     fst (signal_treeview_button_pressed event tree_iter self)"
| "apply_op ext (OpKeyPressed now event tree_iter answer) self =
     fst (signal_treeview_key_pressed now event tree_iter answer self)"
| "apply_op ext (OpPopupMenuCopy column_id tree_iter) self =
     fst (signal_activate_popup_menu_copy column_id tree_iter self)"
| "apply_op ext (OpToggledShowPasswords active) self =
     (case signal_button_toggled_show_passwords active self of Inl e \<Rightarrow> self | Inr self' \<Rightarrow> self')"

fun run_ops :: "extern \<Rightarrow> tab_op list \<Rightarrow> generic_tab \<Rightarrow> generic_tab" where
  "run_ops ext [] self = self"
| "run_ops ext (op # ops) self = run_ops ext ops (apply_op ext op self)"

text \<open>
  The \<^verbatim>\<open>active\<close> state of the show-passwords button after these operations, when it was
  \<open>b\<close> before: GTK emits \<^verbatim>\<open>toggled\<close> at every change of the state, and the handler reads
  the new state.
\<close>

fun button_active :: "bool \<Rightarrow> tab_op list \<Rightarrow> bool" where
  "button_active b [] = b"
| "button_active b (OpToggledShowPasswords active # ops) = button_active active ops"
| "button_active b (op # ops) = button_active b ops"

text \<open>The \<^verbatim>\<open>visible\<close> property of the renderer of a column (\<open>None\<close>: no such column).\<close>

definition renderer_visible :: "nat \<Rightarrow> generic_tab \<Rightarrow> bool option" where
  "renderer_visible column_id self = map_of (view_column_renderers self) column_id"

text \<open>The timeouts registered with \<^verbatim>\<open>GLib.timeout_add_seconds\<close>.\<close>

fun timeouts :: "effect list \<Rightarrow> (int \<times> callback) list" where
  "timeouts [] = []"
| "timeouts (TimeoutAddSeconds interval handler # es) = (interval, handler) # timeouts es"
| "timeouts (e # es) = timeouts es"

text \<open>The threads started.\<close>

fun thread_starts :: "effect list \<Rightarrow> nat list" where
  "thread_starts [] = []"
| "thread_starts (ThreadStart tid # es) = tid # thread_starts es"
| "thread_starts (e # es) = thread_starts es"

text \<open>The rows among the items of the loop.\<close>

fun fetched_rows :: "loader_item list \<Rightarrow> pydict list" where
  "fetched_rows [] = []"
| "fetched_rows (Fetched row_data # items) = row_data # fetched_rows items"
| "fetched_rows (DestroySignal # items) = fetched_rows items"

text \<open>
  What holds of the dashboard's callers at every moment: the callers between the
  \<^verbatim>\<open>with\<close> and its end are the one that holds the lock; at most one thread is alive, and
  it is the one \<^verbatim>\<open>loader_thread\<close> refers to; a caller that has passed the check inside
  the lock finds no thread alive.
\<close>

definition in_with_block :: "dpc \<Rightarrow> bool" where
  "in_with_block p = (p = D367 \<or> p = D369 \<or> p = D370)"

definition dashboard_inv :: "dashboard_conf \<Rightarrow> bool" where
  "dashboard_inv conf =
     ((\<forall>i < length (dcallers conf).
         in_with_block (dcallers conf ! i) = (lock_owner conf = Some i))
      \<and> (\<forall>i. lock_owner conf = Some i \<longrightarrow> i < length (dcallers conf))
      \<and> alive_count (threads (dtab conf)) \<le> 1
      \<and> (alive_count (threads (dtab conf)) = 1 \<longrightarrow>
            thread_is_alive (threads (dtab conf)) (loader_thread (dtab conf)))
      \<and> (\<forall>i < length (dcallers conf).
            dcallers conf ! i = D369 \<longrightarrow> alive_count (threads (dtab conf)) = 0))"

subsection \<open>\<^verbatim>\<open>row_loader_thread_routine\<close> line by line, with the destroy signal\<close>

text \<open>
  The routine as steps of the loader thread, so that the GUI thread's
  \<^verbatim>\<open>is_destroyed.set()\<close> (the first line of \<^verbatim>\<open>signal_destroy\<close>) can come between any two
  of them, also between the test of line 186 and the append of line 188. The lines that
  do not read the flag are taken together: line 177 with the call of line 178, and lines
  179 to 185 for one row. \<open>pending\<close> holds the rows the \<^verbatim>\<open>for\<close> loop has not taken yet,
  \<open>issued\<close> the effects so far, \<open>L186 row\<close> and \<open>L188 row\<close> the row made ready by lines
  184 and 185.
\<close>

datatype loader_pc = L177 | L178 | L186 "string list" | L188 "string list" | LReturned outcome

record loader_conf =
  ltab :: generic_tab
  pending :: "pydict list"
  at_line :: loader_pc
  issued :: "effect list"

definition loader_step :: "extern \<Rightarrow> real \<Rightarrow> loader_conf \<Rightarrow> loader_conf" where
  "loader_step ext now c =
     (let self = ltab c
      in case at_line c of
           L177 \<Rightarrow>
             (case getitem (config self) ''campaign_id'' of
                Inl e \<Rightarrow>
                  c\<lparr>ltab := self\<lparr>sensitive := False\<rparr>,
                    at_line := LReturned (Raised e),
                    issued := issued c @ [IdleAddWait (SetSensitive False)]\<rparr>
              | Inr campaign_id \<Rightarrow>
                  c\<lparr>ltab := self\<lparr>sensitive := False\<rparr>,
                    pending := remote_table ext (''campaign/'' @ remote_table_name (tab_class self))
                                 campaign_id,
                    at_line := L178,
                    issued := issued c @
                      [IdleAddWait (SetSensitive False),
                       RemoteTable (''campaign/'' @ remote_table_name (tab_class self)) campaign_id]\<rparr>)
         | L178 \<Rightarrow>
             (case pending c of
                [] \<Rightarrow>
                  c\<lparr>ltab := self\<lparr>sensitive := True, last_load_time := Fin now\<rparr>,
                    at_line := LReturned Finished,
                    issued := issued c @ [IdleAddWait (SetSensitive True)]\<rparr>
              | row_data # rest \<Rightarrow>
                  (case getitem row_data ''id'' of
                     Inl e \<Rightarrow> c\<lparr>pending := rest, at_line := LReturned (Raised e)\<rparr>
                   | Inr row_id \<Rightarrow>
                       (case format_row_data ext (tab_class self) row_data of
                          Inl e \<Rightarrow> c\<lparr>pending := rest, at_line := LReturned (Raised e)\<rparr>
                        | Inr None \<Rightarrow>
                            c\<lparr>pending := rest,
                              issued := issued c @
                                [Rpc (remote_table_name (tab_class self) @ ''/delete'') row_id]\<rparr>
                        | Inr (Some formatted) \<Rightarrow>
                            c\<lparr>pending := rest, at_line := L186 (store_row row_id formatted)\<rparr>)))
         | L186 row \<Rightarrow>
             if is_destroyed self then c\<lparr>at_line := LReturned Destroyed\<rparr>
             else c\<lparr>at_line := L188 row\<rparr>
         | L188 row \<Rightarrow>
             c\<lparr>ltab := self\<lparr>store := map_option (\<lambda>rows. rows @ [row]) (store self)\<rparr>,
               at_line := L178,
               issued := issued c @ [IdleAddWait (StoreAppend row)]\<rparr>
         | LReturned out \<Rightarrow> c)"

text \<open>\<^verbatim>\<open>self.is_destroyed.set()\<close>, made by the GUI thread.\<close>

definition destroy_signal :: "loader_conf \<Rightarrow> loader_conf" where
  "destroy_signal c = c\<lparr>ltab := (ltab c)\<lparr>is_destroyed := True\<rparr>\<rparr>"

text \<open>Who moves next: the loader thread by one step, or the GUI thread setting the flag.\<close>

datatype actor = Loader | Signal

fun loader_run :: "extern \<Rightarrow> real \<Rightarrow> actor list \<Rightarrow> loader_conf \<Rightarrow> loader_conf" where
  "loader_run ext now [] c = c"
| "loader_run ext now (Loader # schedule) c = loader_run ext now schedule (loader_step ext now c)"
| "loader_run ext now (Signal # schedule) c = loader_run ext now schedule (destroy_signal c)"

text \<open>The loader thread at its start.\<close>

definition loader_start :: "generic_tab \<Rightarrow> loader_conf" where
  "loader_start self = \<lparr> ltab = self, pending = [], at_line = L177, issued = [] \<rparr>"

section \<open>Properties\<close>

subsection \<open>The demo campaign\<close>

lemma demo_tab_simps:
  "config demo_tab = demo_config"
  "last_load_time demo_tab = NegInf"
  "refresh_frequency demo_tab = 300"
  "threads demo_tab = []"
  "tab_class demo_tab = CampaignViewCredentialsTab"
  "view_column_renderers demo_tab = [(1, True), (2, True), (3, False), (4, True)]"
  "row_loader_thread demo_tab = None"
  "is_destroyed demo_tab = False"
  "store demo_tab = None"
  "sensitive demo_tab = True"
  by (simp_all add: demo_tab_def credentials_init_def generic_init_def demo_ext_def
      demo_config_def dict_get_def set_visible_def Let_def upt_rec)

lemma demo_dashboard_simps:
  "config demo_dashboard = demo_config"
  "last_load_time demo_dashboard = NegInf"
  "refresh_frequency demo_dashboard = 300"
  "threads demo_dashboard = []"
  "loader_thread demo_dashboard = None"
  "graphs demo_dashboard = [PStr ''Overview'', PStr ''VisitsTimeline'']"
  by (simp_all add: demo_dashboard_def)

lemma str_nat_digits: "str_nat (Suc 0) = ''1''" "str_nat 2 = ''2''"
  by code_simp+

lemma demo_loading_simps:
  "config demo_loading = demo_config"
  "last_load_time demo_loading = NegInf"
  "refresh_frequency demo_loading = 300"
  "threads demo_loading = [True]"
  "tab_class demo_loading = CampaignViewCredentialsTab"
  "view_column_renderers demo_loading = [(1, True), (2, True), (3, False), (4, True)]"
  "row_loader_thread demo_loading = Some 0"
  "is_destroyed demo_loading = False"
  "store demo_loading = Some []"
  "sensitive demo_loading = True"
  by (simp_all add: demo_loading_def load_campaign_information_def demo_tab_simps
      thread_is_alive_def Let_def)

lemma demo_format:
  "getitem demo_credential_1 ''id'' = Inr (PInt 1)"
  "getitem demo_credential_2 ''id'' = Inr (PInt 2)"
  "format_row_data demo_ext CampaignViewCredentialsTab demo_credential_1
     = Inr (Some [PStr ''alice@example.com'', PStr ''alice'', PStr ''secret'', PStr ''2014-03-01''])"
  "format_row_data demo_ext CampaignViewCredentialsTab demo_credential_2 = Inr None"
  "store_row (PInt 1) [PStr ''alice@example.com'', PStr ''alice'', PStr ''secret'', PStr ''2014-03-01'']
     = demo_row_1"
  by (simp_all add: demo_credential_1_def demo_credential_2_def getitem_def demo_ext_def map_e_def
      store_row_def demo_row_1_def str_nat_digits format_row_data.simps)

lemma demo_remote_table:
  "remote_table demo_ext ''campaign/credentials'' (PInt 7) = [demo_credential_1, demo_credential_2]"
  "getitem demo_config ''campaign_id'' = Inr (PInt 7)"
  by (simp_all add: demo_ext_def demo_credentials_def demo_config_def getitem_def)

lemma demo_dashboard_init:
  "dashboard_init demo_ext demo_config
     = Inr (demo_dashboard,
            [LogDebug ''dashboard refresh frequency set to 300 seconds'',
             LogWarning ''could not get graph: VisitorInfo'',
             TimeoutAddSeconds 300 LoaderIdleRoutine])"
proof -
  have n: "str_nat 300 = ''300''" by code_simp
  show ?thesis
    by (simp add: dashboard_init_def demo_ext_def demo_config_def dict_get_def getitem_def
        dash_ports_def demo_dashboard_def n)
qed

lemma demo_routine:
  "row_loader_thread_routine demo_ext 9 None demo_loading
     = (demo_loading\<lparr>store := Some [demo_row_1], last_load_time := Fin 9\<rparr>,
        [IdleAddWait (SetSensitive False), RemoteTable ''campaign/credentials'' (PInt 7),
         IdleAddWait (StoreAppend demo_row_1), Rpc ''credentials/delete'' (PInt 2),
         IdleAddWait (SetSensitive True)],
        Finished)"
  "row_loader_thread_routine demo_ext 9 (Some 0) demo_loading
     = (demo_loading\<lparr>is_destroyed := True, sensitive := False\<rparr>,
        [IdleAddWait (SetSensitive False), RemoteTable ''campaign/credentials'' (PInt 7)],
        Destroyed)"
  by (simp_all add: row_loader_thread_routine_def demo_loading_simps demo_remote_table interleave_def
      demo_format Let_def)

subsection \<open>The staleness check\<close>

text \<open>
  Claim C1. A call of \<^verbatim>\<open>load_campaign_information\<close> without \<^verbatim>\<open>force\<close>, on a table tab or
  on the dashboard, made when less than \<^verbatim>\<open>refresh_frequency\<close> seconds have passed since
  \<^verbatim>\<open>last_load_time\<close>, returns with the tab as it was and no effect at all: no thread is
  started, the store is not touched and \<^verbatim>\<open>last_load_time\<close> stays. With \<^verbatim>\<open>force=True\<close>
  the check is skipped: whatever the clock and \<^verbatim>\<open>last_load_time\<close> are, the call starts a
  loader thread when none is alive (and, on the dashboard, the parent has its RPC client).
\<close>

theorem load_campaign_information_staleness:
  "(\<not> force \<and> last_load_time self = Fin t \<and> now - t < real_of_int (refresh_frequency self)
      \<longrightarrow> load_campaign_information force now self = (self, []))
   \<and> (\<not> force \<and> last_load_time d = Fin t' \<and> now - t' < real_of_int (refresh_frequency d)
      \<longrightarrow> dashboard_load_campaign_information force now has_rpc d = (d, []))
   \<and> (\<not> thread_is_alive (threads self) (row_loader_thread self)
      \<longrightarrow> snd (load_campaign_information True now self) =
            [LockAcquire, Direct (if store self = None then SetModel else StoreClear),
             ThreadStart (length (threads self)), LockRelease])
   \<and> (has_rpc \<and> \<not> thread_is_alive (threads d) (loader_thread d)
      \<longrightarrow> snd (dashboard_load_campaign_information True now has_rpc d) =
            [LockAcquire, ThreadStart (length (threads d)), LockRelease])"
  by (simp add: load_campaign_information_def dashboard_load_campaign_information_def Let_def)

theorem load_campaign_information_staleness_witness:
  "load_campaign_information False 250 (demo_tab\<lparr>last_load_time := Fin 100\<rparr>)
     = (demo_tab\<lparr>last_load_time := Fin 100\<rparr>, [])
   \<and> dashboard_load_campaign_information False 250 True (demo_dashboard\<lparr>last_load_time := Fin 100\<rparr>)
     = (demo_dashboard\<lparr>last_load_time := Fin 100\<rparr>, [])
   \<and> snd (load_campaign_information True 250 (demo_tab\<lparr>last_load_time := Fin 100\<rparr>))
     = [LockAcquire, Direct SetModel, ThreadStart 0, LockRelease]
   \<and> snd (dashboard_load_campaign_information True 250 True (demo_dashboard\<lparr>last_load_time := Fin 100\<rparr>))
     = [LockAcquire, ThreadStart 0, LockRelease]"
  using load_campaign_information_staleness
    [of False "demo_tab\<lparr>last_load_time := Fin 100\<rparr>" 100 250
        "demo_dashboard\<lparr>last_load_time := Fin 100\<rparr>" 100 True]
  by (simp add: demo_tab_simps demo_dashboard_simps thread_is_alive_def)

subsection \<open>The loop of the row loader\<close>

text \<open>One step of the loop on a fetched row, by cases.\<close>

lemma loop_Fetched_cases:
  obtains
    (no_id) e where "getitem row_data ''id'' = Inl e"
      "row_loader_loop ext self (Fetched row_data # rest) = (self, [], Raised e)"
  | (raised) row_id e where "getitem row_data ''id'' = Inr row_id"
      "format_row_data ext (tab_class self) row_data = Inl e"
      "row_loader_loop ext self (Fetched row_data # rest) = (self, [], Raised e)"
  | (delete) row_id self' es out where "getitem row_data ''id'' = Inr row_id"
      "format_row_data ext (tab_class self) row_data = Inr None"
      "row_loader_loop ext self rest = (self', es, out)"
      "row_loader_loop ext self (Fetched row_data # rest) =
         (self', Rpc (remote_table_name (tab_class self) @ ''/delete'') row_id # es, out)"
  | (stop) row_id formatted where "getitem row_data ''id'' = Inr row_id"
      "format_row_data ext (tab_class self) row_data = Inr (Some formatted)"
      "is_destroyed self"
      "row_loader_loop ext self (Fetched row_data # rest) = (self, [], Destroyed)"
  | (append) row_id formatted self' es out where "getitem row_data ''id'' = Inr row_id"
      "format_row_data ext (tab_class self) row_data = Inr (Some formatted)"
      "\<not> is_destroyed self"
      "row_loader_loop ext
         (self\<lparr>store := map_option (\<lambda>rows. rows @ [store_row row_id formatted]) (store self)\<rparr>)
         rest = (self', es, out)"
      "row_loader_loop ext self (Fetched row_data # rest) =
         (self', IdleAddWait (StoreAppend (store_row row_id formatted)) # es, out)"
proof (cases "getitem row_data ''id''")
  case (Inl e)
  then show ?thesis using no_id by simp
next
  case id: (Inr row_id)
  show ?thesis
  proof (cases "format_row_data ext (tab_class self) row_data")
    case (Inl e)
    then show ?thesis using raised id by simp
  next
    case (Inr r)
    show ?thesis
    proof (cases r)
      case None
      obtain self' es out where "row_loader_loop ext self rest = (self', es, out)"
        using prod_cases3 by blast
      then show ?thesis using delete id Inr None by simp
    next
      case (Some formatted)
      show ?thesis
      proof (cases "is_destroyed self")
        case True
        then show ?thesis using stop id Inr Some by simp
      next
        case False
        obtain self' es out where "row_loader_loop ext
         (self\<lparr>store := map_option (\<lambda>rows. rows @ [store_row row_id formatted]) (store self)\<rparr>)
         rest = (self', es, out)"
          using prod_cases3 by blast
        then show ?thesis using append id Inr Some False by simp
      qed
    qed
  qed
qed


lemma loop_fields:
  "row_loader_loop ext self items = (self', es, out) \<Longrightarrow>
     last_load_time self' = last_load_time self \<and> sensitive self' = sensitive self
     \<and> threads self' = threads self \<and> row_loader_thread self' = row_loader_thread self
     \<and> tab_class self' = tab_class self \<and> config self' = config self
     \<and> refresh_frequency self' = refresh_frequency self
     \<and> view_column_renderers self' = view_column_renderers self
     \<and> (is_destroyed self \<longrightarrow> is_destroyed self')"
proof (induction items arbitrary: self self' es out)
  case Nil
  then show ?case by simp
next
  case (Cons item items)
  show ?case
  proof (cases item)
    case DestroySignal
    then show ?thesis using Cons.IH[of "self\<lparr>is_destroyed := True\<rparr>" self' es out] Cons.prems
      by simp
  next
    case (Fetched row_data)
    show ?thesis
    proof (cases rule: loop_Fetched_cases[of row_data ext self items])
      case (no_id e)
      then show ?thesis using Cons.prems Fetched by auto
    next
      case (raised row_id e)
      then show ?thesis using Cons.prems Fetched by auto
    next
      case (delete row_id s1 es1 out1)
      then show ?thesis using Cons.prems Fetched Cons.IH[of self s1 es1 out1] by auto
    next
      case (stop row_id formatted)
      then show ?thesis using Cons.prems Fetched by auto
    next
      case (append row_id formatted s1 es1 out1)
      then show ?thesis using Cons.prems Fetched
          Cons.IH[of "self\<lparr>store := map_option (\<lambda>rows. rows @ [store_row row_id formatted]) (store self)\<rparr>" s1 es1 out1]
        by auto
    qed
  qed
qed

lemma fetched_rows_interleave: "fetched_rows (interleave destroy_at rows) = rows"
proof -
  have m: "\<And>rs. fetched_rows (map Fetched rs) = rs"
  proof -
    fix rs :: "pydict list" show "fetched_rows (map Fetched rs) = rs" by (induction rs) simp_all
  qed
  have a: "\<And>xs ys. fetched_rows (xs @ ys) = fetched_rows xs @ fetched_rows ys"
  proof -
    fix xs ys show "fetched_rows (xs @ ys) = fetched_rows xs @ fetched_rows ys"
      by (induction xs rule: fetched_rows.induct) simp_all
  qed
  show ?thesis
    by (cases destroy_at) (simp_all add: interleave_def m a)
qed

lemma loop_trace:
  "row_loader_loop ext self items = (self', es, out) \<Longrightarrow>
     direct_calls es = [] \<and> idle_calls es = map StoreAppend (store_appends es)
     \<and> thread_starts es = [] \<and> timeouts es = []
     \<and> store self' = map_option (\<lambda>rows. rows @ store_appends es) (store self)
     \<and> (\<forall>e \<in> set es. is_rpc_effect e \<longrightarrow> executed_on e = WorkerThread)"
proof (induction items arbitrary: self self' es out)
  case Nil
  then show ?case by (auto simp: option.map_ident)
next
  case (Cons item items)
  show ?case
  proof (cases item)
    case DestroySignal
    then show ?thesis using Cons.IH[of "self\<lparr>is_destroyed := True\<rparr>" self' es out] Cons.prems
      by simp
  next
    case (Fetched row_data)
    show ?thesis
    proof (cases rule: loop_Fetched_cases[of row_data ext self items])
      case (no_id e)
      then show ?thesis using Cons.prems Fetched by (auto simp: option.map_ident)
    next
      case (raised row_id e)
      then show ?thesis using Cons.prems Fetched by (auto simp: option.map_ident)
    next
      case (delete row_id s1 es1 out1)
      then show ?thesis using Cons.prems Fetched Cons.IH[of self s1 es1 out1] by auto
    next
      case (stop row_id formatted)
      then show ?thesis using Cons.prems Fetched by (auto simp: option.map_ident)
    next
      case (append row_id formatted s1 es1 out1)
      then show ?thesis using Cons.prems Fetched
          Cons.IH[of "self\<lparr>store := map_option (\<lambda>rows. rows @ [store_row row_id formatted]) (store self)\<rparr>" s1 es1 out1]
        by (auto simp: option.map_comp comp_def)
    qed
  qed
qed

lemma loop_finished:
  "row_loader_loop ext self items = (self', es, Finished) \<Longrightarrow>
     deleted_ids (remote_table_name (tab_class self)) es
       = map (\<lambda>r. projr (getitem r ''id''))
           (filter (\<lambda>r. format_row_data ext (tab_class self) r = Inr None) (fetched_rows items))
     \<and> store_appends es
       = map (\<lambda>r. store_row (projr (getitem r ''id'')) (the (projr (format_row_data ext (tab_class self) r))))
           (filter (\<lambda>r. format_row_data ext (tab_class self) r \<noteq> Inr None) (fetched_rows items))"
proof (induction items arbitrary: self self' es)
  case Nil
  then show ?case by simp
next
  case (Cons item items)
  show ?case
  proof (cases item)
    case DestroySignal
    then show ?thesis using Cons.IH[of "self\<lparr>is_destroyed := True\<rparr>" self' es] Cons.prems
      by simp
  next
    case (Fetched row_data)
    show ?thesis
    proof (cases rule: loop_Fetched_cases[of row_data ext self items])
      case (no_id e)
      then show ?thesis using Cons.prems Fetched by auto
    next
      case (raised row_id e)
      then show ?thesis using Cons.prems Fetched by auto
    next
      case (delete row_id s1 es1 out1)
      then show ?thesis using Cons.prems Fetched Cons.IH[of self s1 es1] by auto
    next
      case (stop row_id formatted)
      then show ?thesis using Cons.prems Fetched by auto
    next
      case (append row_id formatted s1 es1 out1)
      then show ?thesis using Cons.prems Fetched
          Cons.IH[of "self\<lparr>store := map_option (\<lambda>rows. rows @ [store_row row_id formatted]) (store self)\<rparr>" s1 es1]
        by auto
    qed
  qed
qed

lemma loop_safe:
  "row_loader_loop ext self items = (self', es, out) \<Longrightarrow>
     (\<forall>rid \<in> set (deleted_ids (remote_table_name (tab_class self)) es).
        \<exists>r \<in> set (fetched_rows items).
          getitem r ''id'' = Inr rid \<and> format_row_data ext (tab_class self) r = Inr None)
     \<and> (\<forall>cells \<in> set (store_appends es).
        \<exists>r \<in> set (fetched_rows items). \<exists>rid formatted.
          getitem r ''id'' = Inr rid \<and> format_row_data ext (tab_class self) r = Inr (Some formatted)
          \<and> cells = store_row rid formatted)"
proof (induction items arbitrary: self self' es out)
  case Nil
  then show ?case by simp
next
  case (Cons item items)
  show ?case
  proof (cases item)
    case DestroySignal
    then show ?thesis using Cons.IH[of "self\<lparr>is_destroyed := True\<rparr>" self' es out] Cons.prems
      by simp
  next
    case (Fetched row_data)
    show ?thesis
    proof (cases rule: loop_Fetched_cases[of row_data ext self items])
      case (no_id e)
      then show ?thesis using Cons.prems Fetched by auto
    next
      case (raised row_id e)
      then show ?thesis using Cons.prems Fetched by auto
    next
      case (delete row_id s1 es1 out1)
      then show ?thesis using Cons.prems Fetched Cons.IH[of self s1 es1 out1] by auto
    next
      case (stop row_id formatted)
      then show ?thesis using Cons.prems Fetched by auto
    next
      case (append row_id formatted s1 es1 out1)
      then show ?thesis using Cons.prems Fetched
          Cons.IH[of "self\<lparr>store := map_option (\<lambda>rows. rows @ [store_row row_id formatted]) (store self)\<rparr>" s1 es1 out1]
        by (auto; blast)
    qed
  qed
qed

lemma routine_cases:
  obtains
    (no_campaign) e where "getitem (config self) ''campaign_id'' = Inl e"
      "row_loader_thread_routine ext now destroy_at self =
         (self\<lparr>sensitive := False\<rparr>, [IdleAddWait (SetSensitive False)], Raised e)"
  | (finished) campaign_id self2 es where "getitem (config self) ''campaign_id'' = Inr campaign_id"
      "row_loader_loop ext (self\<lparr>sensitive := False\<rparr>)
         (interleave destroy_at
            (remote_table ext (''campaign/'' @ remote_table_name (tab_class self)) campaign_id))
         = (self2, es, Finished)"
      "row_loader_thread_routine ext now destroy_at self =
         (self2\<lparr>sensitive := True, last_load_time := Fin now\<rparr>,
          IdleAddWait (SetSensitive False)
            # RemoteTable (''campaign/'' @ remote_table_name (tab_class self)) campaign_id
            # es @ [IdleAddWait (SetSensitive True)],
          Finished)"
  | (stopped) campaign_id self2 es out where "getitem (config self) ''campaign_id'' = Inr campaign_id"
      "row_loader_loop ext (self\<lparr>sensitive := False\<rparr>)
         (interleave destroy_at
            (remote_table ext (''campaign/'' @ remote_table_name (tab_class self)) campaign_id))
         = (self2, es, out)"
      "out \<noteq> Finished"
      "row_loader_thread_routine ext now destroy_at self =
         (self2,
          IdleAddWait (SetSensitive False)
            # RemoteTable (''campaign/'' @ remote_table_name (tab_class self)) campaign_id # es,
          out)"
proof (cases "getitem (config self) ''campaign_id''")
  case (Inl e)
  then show ?thesis using no_campaign by (simp add: row_loader_thread_routine_def)
next
  case (Inr campaign_id)
  obtain self2 es out where r: "row_loader_loop ext (self\<lparr>sensitive := False\<rparr>)
         (interleave destroy_at
            (remote_table ext (''campaign/'' @ remote_table_name (tab_class self)) campaign_id))
         = (self2, es, out)"
    using prod_cases3 by blast
  show ?thesis
  proof (cases out)
    case Finished
    then show ?thesis using finished[OF Inr] r Inr by (simp add: row_loader_thread_routine_def)
  next
    case Destroyed
    then show ?thesis using stopped[OF Inr r] r Inr by (simp add: row_loader_thread_routine_def)
  next
    case (Raised e)
    then show ?thesis using stopped[OF Inr r] r Inr by (simp add: row_loader_thread_routine_def)
  qed
qed

subsection \<open>Lists of effects put together\<close>

lemma store_appends_append: "store_appends (xs @ ys) = store_appends xs @ store_appends ys"
  by (induction xs rule: store_appends.induct) simp_all

lemma deleted_ids_append: "deleted_ids t (xs @ ys) = deleted_ids t xs @ deleted_ids t ys"
  by (induction t xs rule: deleted_ids.induct) simp_all

lemma idle_calls_append: "idle_calls (xs @ ys) = idle_calls xs @ idle_calls ys"
  by (induction xs rule: idle_calls.induct) simp_all

lemma direct_calls_append: "direct_calls (xs @ ys) = direct_calls xs @ direct_calls ys"
  by (induction xs rule: direct_calls.induct) simp_all

lemma refresh_graphs_names:
  "map (\<lambda>call. case call of GraphRefresh g info_cache \<Rightarrow> g | _ \<Rightarrow> PNone)
       (idle_calls (fst (refresh_graphs ext gs c))) = gs
   \<and> direct_calls (fst (refresh_graphs ext gs c)) = []
   \<and> length (fst (refresh_graphs ext gs c)) = length gs"
proof (induction gs arbitrary: c)
  case Nil
  then show ?case by simp
next
  case (Cons g gs)
  obtain es c' where r: "refresh_graphs ext gs (graph_refresh ext g c) = (es, c')"
    by (cases "refresh_graphs ext gs (graph_refresh ext g c)") auto
  with Cons[of "graph_refresh ext g c"] show ?case by simp
qed

subsection \<open>The loader routines\<close>

lemma routine_last_load_time:
  assumes "row_loader_thread_routine ext now destroy_at self = (self', es, out)"
  shows "last_load_time self' = (if out = Finished then Fin now else last_load_time self)"
proof (cases rule: routine_cases[of self ext now destroy_at])
  case (no_campaign e)
  then show ?thesis using assms by auto
next
  case (finished campaign_id self2 es2)
  then show ?thesis using assms by auto
next
  case (stopped campaign_id self2 es2 out2)
  from loop_fields[OF stopped(2)] have "last_load_time self2 = last_load_time self" by simp
  then show ?thesis using assms stopped by auto
qed

lemma routine_all_rows:
  assumes "row_loader_thread_routine ext now destroy_at self = (self', es, Finished)"
    and "getitem (config self) ''campaign_id'' = Inr campaign_id"
  shows "deleted_ids (remote_table_name (tab_class self)) es
       = map (\<lambda>r. projr (getitem r ''id''))
           (filter (\<lambda>r. format_row_data ext (tab_class self) r = Inr None)
              (remote_table ext (''campaign/'' @ remote_table_name (tab_class self)) campaign_id))
     \<and> store_appends es
       = map (\<lambda>r. store_row (projr (getitem r ''id'')) (the (projr (format_row_data ext (tab_class self) r))))
           (filter (\<lambda>r. format_row_data ext (tab_class self) r \<noteq> Inr None)
              (remote_table ext (''campaign/'' @ remote_table_name (tab_class self)) campaign_id))"
proof (cases rule: routine_cases[of self ext now destroy_at])
  case (no_campaign e)
  then show ?thesis using assms by simp
next
  case (finished cid self2 es2)
  from loop_finished[OF finished(2)] finished(1) assms(2)
  have "deleted_ids (remote_table_name (tab_class self)) es2
       = map (\<lambda>r. projr (getitem r ''id''))
           (filter (\<lambda>r. format_row_data ext (tab_class self) r = Inr None)
              (remote_table ext (''campaign/'' @ remote_table_name (tab_class self)) campaign_id))
     \<and> store_appends es2
       = map (\<lambda>r. store_row (projr (getitem r ''id'')) (the (projr (format_row_data ext (tab_class self) r))))
           (filter (\<lambda>r. format_row_data ext (tab_class self) r \<noteq> Inr None)
              (remote_table ext (''campaign/'' @ remote_table_name (tab_class self)) campaign_id))"
    by (simp add: fetched_rows_interleave)
  moreover have "es = IdleAddWait (SetSensitive False)
            # RemoteTable (''campaign/'' @ remote_table_name (tab_class self)) cid
            # es2 @ [IdleAddWait (SetSensitive True)]"
    using finished(3) assms(1) by simp
  ultimately show ?thesis by (simp add: store_appends_append deleted_ids_append)
next
  case (stopped cid self2 es2 out2)
  then show ?thesis using assms by simp
qed

lemma generic_init_load:
  "snd (load_campaign_information False now (new_tab ext cls cfg))
     = [LockAcquire, Direct SetModel, ThreadStart 0, LockRelease]"
  by (simp add: new_tab_def credentials_init_def generic_init_def load_campaign_information_def
      thread_is_alive_def Let_def)

lemma dashboard_init_fields:
  assumes "dashboard_init ext cfg = Inr (d, es)"
  shows "last_load_time d = NegInf \<and> threads d = [] \<and> loader_thread d = None
    \<and> refresh_frequency d
        = timedef_to_seconds ext (py_str (dict_get cfg ''gui.refresh_frequency'' (PStr ''5m'')))
    \<and> timeouts es = [(refresh_frequency d, LoaderIdleRoutine)]"
proof -
  have t: "\<And>ps gs ws. dash_ports_loop ext cfg ps = Inr (gs, ws) \<Longrightarrow> timeouts ws = []"
  proof -
    fix ps gs ws show "dash_ports_loop ext cfg ps = Inr (gs, ws) \<Longrightarrow> timeouts ws = []"
      by (induction ps arbitrary: gs ws) (auto split: sum.splits if_splits prod.splits)
  qed
  have ta: "\<And>xs ys. timeouts (xs @ ys) = timeouts xs @ timeouts ys"
  proof -
    fix xs ys show "timeouts (xs @ ys) = timeouts xs @ timeouts ys"
      by (induction xs rule: timeouts.induct) simp_all
  qed
  from assms show ?thesis
    by (auto simp: dashboard_init_def Let_def ta dest: t split: sum.splits prod.splits)
qed

subsection \<open>The time of the last load\<close>

text \<open>
  Claim C4. \<^verbatim>\<open>last_load_time\<close> is \<open>-inf\<close> after the construction of a tab, and with
  that value a load without \<^verbatim>\<open>force\<close> goes on exactly as a forced one: on a new table
  tab it starts the loader thread, whatever the clock and \<^verbatim>\<open>refresh_frequency\<close> are.
  The loop over the rows leaves \<^verbatim>\<open>last_load_time\<close> alone; the routine sets it, to the
  time read after the loop, when it reaches its end, and then every row of the table has
  been deleted or appended. A routine that returns early (destroyed, or with an
  exception) leaves it unchanged. The dashboard's routine sets it after having refreshed
  every graph.
\<close>

theorem last_load_time_set_after_load:
  "last_load_time (new_tab ext cls cfg) = NegInf
   \<and> (dashboard_init ext cfg = Inr (d, des) \<longrightarrow> last_load_time d = NegInf)
   \<and> (last_load_time self = NegInf
      \<longrightarrow> load_campaign_information False now self = load_campaign_information True now self)
   \<and> (last_load_time dt = NegInf
      \<longrightarrow> dashboard_load_campaign_information False now has_rpc dt
          = dashboard_load_campaign_information True now has_rpc dt)
   \<and> snd (load_campaign_information False now (new_tab ext cls cfg))
       = [LockAcquire, Direct SetModel, ThreadStart 0, LockRelease]
   \<and> last_load_time (fst (row_loader_loop ext self items)) = last_load_time self
   \<and> (row_loader_thread_routine ext now destroy_at self = (self', es, out)
      \<longrightarrow> last_load_time self' = (if out = Finished then Fin now else last_load_time self)
        \<and> (out = Finished \<and> getitem (config self) ''campaign_id'' = Inr campaign_id
           \<longrightarrow> length (deleted_ids (remote_table_name (tab_class self)) es) + length (store_appends es)
               = length (remote_table ext (''campaign/'' @ remote_table_name (tab_class self)) campaign_id)))
   \<and> last_load_time (fst (loader_thread_routine ext now dt)) = Fin now
   \<and> map (\<lambda>call. case call of GraphRefresh g info_cache \<Rightarrow> g | _ \<Rightarrow> PNone)
         (idle_calls (snd (loader_thread_routine ext now dt))) = graphs dt"
proof -
  have a: "last_load_time (new_tab ext cls cfg) = NegInf"
    by (simp add: new_tab_def credentials_init_def generic_init_def Let_def)
  have b: "dashboard_init ext cfg = Inr (d, des) \<longrightarrow> last_load_time d = NegInf"
    using dashboard_init_fields by blast
  have c: "last_load_time self = NegInf
      \<longrightarrow> load_campaign_information False now self = load_campaign_information True now self"
    by (simp add: load_campaign_information_def)
  have d: "last_load_time dt = NegInf
      \<longrightarrow> dashboard_load_campaign_information False now has_rpc dt
          = dashboard_load_campaign_information True now has_rpc dt"
    by (simp add: dashboard_load_campaign_information_def)
  have e: "last_load_time (fst (row_loader_loop ext self items)) = last_load_time self"
  proof -
    obtain s2 es2 out2 where "row_loader_loop ext self items = (s2, es2, out2)"
      using prod_cases3 by blast
    then show ?thesis using loop_fields by fastforce
  qed
  have f: "row_loader_thread_routine ext now destroy_at self = (self', es, out)
      \<longrightarrow> last_load_time self' = (if out = Finished then Fin now else last_load_time self)
        \<and> (out = Finished \<and> getitem (config self) ''campaign_id'' = Inr campaign_id
           \<longrightarrow> length (deleted_ids (remote_table_name (tab_class self)) es) + length (store_appends es)
               = length (remote_table ext (''campaign/'' @ remote_table_name (tab_class self)) campaign_id))"
  proof (intro impI conjI)
    assume r: "row_loader_thread_routine ext now destroy_at self = (self', es, out)"
    show "last_load_time self' = (if out = Finished then Fin now else last_load_time self)"
      by (rule routine_last_load_time[OF r])
    assume "out = Finished \<and> getitem (config self) ''campaign_id'' = Inr campaign_id"
    with r routine_all_rows[of ext now destroy_at self self' es campaign_id]
    show "length (deleted_ids (remote_table_name (tab_class self)) es) + length (store_appends es)
               = length (remote_table ext (''campaign/'' @ remote_table_name (tab_class self)) campaign_id)"
      by (simp add: sum_length_filter_compl)
  qed
  have g: "last_load_time (fst (loader_thread_routine ext now dt)) = Fin now"
    by (simp add: loader_thread_routine_def)
  have h: "map (\<lambda>call. case call of GraphRefresh g info_cache \<Rightarrow> g | _ \<Rightarrow> PNone)
         (idle_calls (snd (loader_thread_routine ext now dt))) = graphs dt"
    using refresh_graphs_names[of ext "graphs dt" "[]"] by (simp add: loader_thread_routine_def)
  from a b c d e f g h generic_init_load[of now ext cls cfg] show ?thesis by blast
qed

theorem last_load_time_set_after_load_witness:
  "last_load_time (fst (row_loader_thread_routine demo_ext 9 None demo_loading)) = Fin 9
   \<and> length (deleted_ids ''credentials'' (fst (snd (row_loader_thread_routine demo_ext 9 None demo_loading))))
       + length (store_appends (fst (snd (row_loader_thread_routine demo_ext 9 None demo_loading)))) = 2
   \<and> last_load_time (fst (row_loader_thread_routine demo_ext 9 (Some 0) demo_loading)) = NegInf
   \<and> last_load_time demo_dashboard = NegInf
   \<and> load_campaign_information False 3 demo_loading = load_campaign_information True 3 demo_loading
   \<and> dashboard_load_campaign_information False 3 True demo_dashboard
       = dashboard_load_campaign_information True 3 True demo_dashboard"
  using last_load_time_set_after_load
      [where ext = demo_ext and cfg = demo_config and d = demo_dashboard
         and des = "[LogDebug ''dashboard refresh frequency set to 300 seconds'',
                     LogWarning ''could not get graph: VisitorInfo'',
                     TimeoutAddSeconds 300 LoaderIdleRoutine]"
         and self = demo_loading and now = 9 and destroy_at = None
         and self' = "demo_loading\<lparr>store := Some [demo_row_1], last_load_time := Fin 9\<rparr>"
         and es = "[IdleAddWait (SetSensitive False), RemoteTable ''campaign/credentials'' (PInt 7),
                    IdleAddWait (StoreAppend demo_row_1), Rpc ''credentials/delete'' (PInt 2),
                    IdleAddWait (SetSensitive True)]"
         and out = Finished and campaign_id = "PInt 7" and dt = demo_dashboard and has_rpc = True]
    last_load_time_set_after_load
      [where ext = demo_ext and self = demo_loading and now = 9 and destroy_at = "Some 0"
         and self' = "demo_loading\<lparr>is_destroyed := True, sensitive := False\<rparr>"
         and es = "[IdleAddWait (SetSensitive False), RemoteTable ''campaign/credentials'' (PInt 7)]"
         and out = Destroyed]
    last_load_time_set_after_load
      [where self = demo_loading and now = 3 and dt = demo_dashboard and has_rpc = True]
  by (simp add: demo_routine demo_dashboard_init demo_loading_simps demo_dashboard_simps
      demo_remote_table)

subsection \<open>Rows that cannot be formatted\<close>

lemma map_e_Some_not_None: "map_e Some m \<noteq> Inr None"
  by (cases m) (simp_all add: map_e_def)

lemma format_row_data_None:
  "format_row_data ext cls row = Inr None \<longleftrightarrow>
     (cls = CampaignViewDeaddropTab
        \<and> (\<exists>deploy_id. getitem row ''deployment_id'' = Inr deploy_id
              \<and> (remote_table_row ext ''deaddrop_deployments'' deploy_id = None
                 \<or> remote_table_row ext ''deaddrop_deployments'' deploy_id = Some [])))
     \<or> ((cls = CampaignViewCredentialsTab \<or> cls = CampaignViewVisitsTab)
        \<and> (\<exists>msg_id. getitem row ''message_id'' = Inr msg_id
              \<and> (remote_table_row ext ''messages'' msg_id = None
                 \<or> remote_table_row ext ''messages'' msg_id = Some [])))"
proof (cases cls)
  case CampaignViewGenericTab
  then show ?thesis by (simp add: format_row_data.simps)
next
  case CampaignViewDeaddropTab
  then show ?thesis
    by (cases "getitem row ''deployment_id''")
       (auto simp: format_row_data.simps map_e_Some_not_None split: option.splits)
next
  case CampaignViewCredentialsTab
  then show ?thesis
    by (cases "getitem row ''message_id''")
       (auto simp: format_row_data.simps map_e_Some_not_None split: option.splits)
next
  case CampaignViewVisitsTab
  then show ?thesis
    by (cases "getitem row ''message_id''")
       (auto simp: format_row_data.simps map_e_Some_not_None split: option.splits)
next
  case CampaignViewMessagesTab
  then show ?thesis by (simp add: format_row_data.simps map_e_Some_not_None)
qed

lemma loop_handled:
  "row_loader_loop ext self items = (self', es, out) \<Longrightarrow>
     \<exists>n \<le> length (fetched_rows items).
       (out = Finished \<longrightarrow> n = length (fetched_rows items))
       \<and> deleted_ids (remote_table_name (tab_class self)) es
         = map (\<lambda>r. projr (getitem r ''id''))
             (filter (\<lambda>r. format_row_data ext (tab_class self) r = Inr None)
                (take n (fetched_rows items)))
       \<and> store_appends es
         = map (\<lambda>r. store_row (projr (getitem r ''id''))
                      (the (projr (format_row_data ext (tab_class self) r))))
             (filter (\<lambda>r. format_row_data ext (tab_class self) r \<noteq> Inr None)
                (take n (fetched_rows items)))"
proof (induction items arbitrary: self self' es out)
  case Nil
  then show ?case by simp
next
  case (Cons item items)
  show ?case
  proof (cases item)
    case DestroySignal
    then show ?thesis using Cons.IH[of "self\<lparr>is_destroyed := True\<rparr>" self' es out] Cons.prems
      by simp
  next
    case (Fetched row_data)
    show ?thesis
    proof (cases rule: loop_Fetched_cases[of row_data ext self items])
      case (no_id e)
      then have "es = [] \<and> out \<noteq> Finished" using Cons.prems Fetched by auto
      then show ?thesis by (intro exI[of _ 0]) simp
    next
      case (raised row_id e)
      then have "es = [] \<and> out \<noteq> Finished" using Cons.prems Fetched by auto
      then show ?thesis by (intro exI[of _ 0]) simp
    next
      case (delete row_id s1 es1 out1)
      from Cons.IH[OF delete(3)] obtain n where n: "n \<le> length (fetched_rows items)"
        "out1 = Finished \<longrightarrow> n = length (fetched_rows items)"
        "deleted_ids (remote_table_name (tab_class self)) es1
         = map (\<lambda>r. projr (getitem r ''id''))
             (filter (\<lambda>r. format_row_data ext (tab_class self) r = Inr None)
                (take n (fetched_rows items)))"
        "store_appends es1
         = map (\<lambda>r. store_row (projr (getitem r ''id''))
                      (the (projr (format_row_data ext (tab_class self) r))))
             (filter (\<lambda>r. format_row_data ext (tab_class self) r \<noteq> Inr None)
                (take n (fetched_rows items)))"
        by blast
      have "es = Rpc (remote_table_name (tab_class self) @ ''/delete'') row_id # es1 \<and> out = out1"
        using delete Cons.prems Fetched by auto
      then show ?thesis using n delete(1,2) Fetched
        by (intro exI[of _ "Suc n"]) simp
    next
      case (stop row_id formatted)
      then have "es = [] \<and> out \<noteq> Finished" using Cons.prems Fetched by auto
      then show ?thesis by (intro exI[of _ 0]) simp
    next
      case (append row_id formatted s1 es1 out1)
      from Cons.IH[OF append(4)] obtain n where n: "n \<le> length (fetched_rows items)"
        "out1 = Finished \<longrightarrow> n = length (fetched_rows items)"
        "deleted_ids (remote_table_name (tab_class self)) es1
         = map (\<lambda>r. projr (getitem r ''id''))
             (filter (\<lambda>r. format_row_data ext (tab_class self) r = Inr None)
                (take n (fetched_rows items)))"
        "store_appends es1
         = map (\<lambda>r. store_row (projr (getitem r ''id''))
                      (the (projr (format_row_data ext (tab_class self) r))))
             (filter (\<lambda>r. format_row_data ext (tab_class self) r \<noteq> Inr None)
                (take n (fetched_rows items)))"
        by auto
      have "es = IdleAddWait (StoreAppend (store_row row_id formatted)) # es1 \<and> out = out1"
        using append Cons.prems Fetched by auto
      then show ?thesis using n append(1,2) Fetched
        by (intro exI[of _ "Suc n"]) simp
    qed
  qed
qed

lemma loop_effects_kind:
  "row_loader_loop ext self items = (self', es, out) \<Longrightarrow>
     \<forall>e \<in> set es. (\<exists>r. e = IdleAddWait (StoreAppend r))
        \<or> (\<exists>rid. e = Rpc (remote_table_name (tab_class self) @ ''/delete'') rid)"
proof (induction items arbitrary: self self' es out)
  case Nil
  then show ?case by simp
next
  case (Cons item items)
  show ?case
  proof (cases item)
    case DestroySignal
    then show ?thesis using Cons.IH[of "self\<lparr>is_destroyed := True\<rparr>" self' es out] Cons.prems
      by simp
  next
    case (Fetched row_data)
    show ?thesis
    proof (cases rule: loop_Fetched_cases[of row_data ext self items])
      case (no_id e)
      then show ?thesis using Cons.prems Fetched by auto
    next
      case (raised row_id e)
      then show ?thesis using Cons.prems Fetched by auto
    next
      case (delete row_id s1 es1 out1)
      then show ?thesis using Cons.prems Fetched Cons.IH[of self s1 es1 out1] by auto
    next
      case (stop row_id formatted)
      then show ?thesis using Cons.prems Fetched by auto
    next
      case (append row_id formatted s1 es1 out1)
      then show ?thesis using Cons.prems Fetched
          Cons.IH[of "self\<lparr>store := map_option (\<lambda>rows. rows @ [store_row row_id formatted]) (store self)\<rparr>" s1 es1 out1]
        by auto
    qed
  qed
qed

lemma routine_handled:
  assumes r: "row_loader_thread_routine ext now destroy_at self = (self', es, out)"
    and c: "getitem (config self) ''campaign_id'' = Inr campaign_id"
  shows "\<exists>n \<le> length (remote_table ext (''campaign/'' @ remote_table_name (tab_class self)) campaign_id).
       (out = Finished \<longrightarrow>
          n = length (remote_table ext (''campaign/'' @ remote_table_name (tab_class self)) campaign_id))
       \<and> deleted_ids (remote_table_name (tab_class self)) es
         = map (\<lambda>r. projr (getitem r ''id''))
             (filter (\<lambda>r. format_row_data ext (tab_class self) r = Inr None)
                (take n (remote_table ext (''campaign/'' @ remote_table_name (tab_class self)) campaign_id)))
       \<and> store_appends es
         = map (\<lambda>r. store_row (projr (getitem r ''id''))
                      (the (projr (format_row_data ext (tab_class self) r))))
             (filter (\<lambda>r. format_row_data ext (tab_class self) r \<noteq> Inr None)
                (take n (remote_table ext (''campaign/'' @ remote_table_name (tab_class self)) campaign_id)))"
proof (cases rule: routine_cases[of self ext now destroy_at])
  case (no_campaign e)
  then show ?thesis using c by simp
next
  case (finished cid self2 es2)
  have es: "es = IdleAddWait (SetSensitive False)
            # RemoteTable (''campaign/'' @ remote_table_name (tab_class self)) cid
            # es2 @ [IdleAddWait (SetSensitive True)]" and out: "out = Finished"
    using finished(3) r by simp_all
  from loop_handled[OF finished(2)] finished(1) c es out show ?thesis
    by (simp add: fetched_rows_interleave store_appends_append deleted_ids_append)
next
  case (stopped cid self2 es2 out2)
  have es: "es = IdleAddWait (SetSensitive False)
            # RemoteTable (''campaign/'' @ remote_table_name (tab_class self)) cid # es2"
    and out: "out = out2"
    using stopped(4) r by simp_all
  from loop_handled[OF stopped(2)] stopped(1) c es out show ?thesis
    by (simp add: fetched_rows_interleave)
qed

lemma routine_trace:
  assumes r: "row_loader_thread_routine ext now destroy_at self = (self', es, out)"
  shows "direct_calls es = []
     \<and> idle_calls es = SetSensitive False # map StoreAppend (store_appends es)
          @ (if out = Finished then [SetSensitive True] else [])
     \<and> (\<forall>e \<in> set es. (\<exists>call. e = IdleAddWait call) \<or> is_rpc_effect e)
     \<and> (\<forall>campaign_id. getitem (config self) ''campaign_id'' = Inr campaign_id \<longrightarrow>
           RemoteTable (''campaign/'' @ remote_table_name (tab_class self)) campaign_id \<in> set es)
     \<and> store self' = map_option (\<lambda>rows. rows @ store_appends es) (store self)
     \<and> sensitive self' = (out = Finished)"
proof (cases rule: routine_cases[of self ext now destroy_at])
  case (no_campaign e)
  then show ?thesis using r by (auto simp: option.map_ident)
next
  case (finished cid self2 es2)
  have es: "es = IdleAddWait (SetSensitive False)
            # RemoteTable (''campaign/'' @ remote_table_name (tab_class self)) cid
            # es2 @ [IdleAddWait (SetSensitive True)]" and out: "out = Finished"
    and s: "self' = self2\<lparr>sensitive := True, last_load_time := Fin now\<rparr>"
    using finished(3) r by simp_all
  from loop_trace[OF finished(2)] loop_effects_kind[OF finished(2)] finished(1) es out s
  show ?thesis
    by (auto simp: store_appends_append idle_calls_append direct_calls_append)
next
  case (stopped cid self2 es2 out2)
  have es: "es = IdleAddWait (SetSensitive False)
            # RemoteTable (''campaign/'' @ remote_table_name (tab_class self)) cid # es2"
    and out: "out = out2" and s: "self' = self2"
    using stopped(4) r by simp_all
  from loop_trace[OF stopped(2)] loop_effects_kind[OF stopped(2)] loop_fields[OF stopped(2)]
    stopped(1,3) es out s
  show ?thesis by auto
qed

subsection \<open>Which thread does what\<close>

text \<open>
  Claim C8. In a load, the rows are fetched by the loader thread itself: the
  \<^verbatim>\<open>remote_table\<close> call is an effect of the routine that does not go through
  \<^verbatim>\<open>glib_idle_add_wait\<close>. Every change of the GUI goes through it, and so is made on the
  GUI main thread: the routine makes no GUI call directly, and its calls through
  \<^verbatim>\<open>glib_idle_add_wait\<close> are, in this order, the disabling of the tree view, the append
  of each row, and (when the routine reaches its end) the enabling of the tree view. The
  store and the tree view change by exactly these calls. The dashboard's routine
  refreshes each graph, in order, through \<^verbatim>\<open>glib_idle_add_wait\<close> and does nothing else.
\<close>

theorem gui_changes_go_through_main_loop:
  "(row_loader_thread_routine ext now destroy_at self = (self', es, out) \<longrightarrow>
      direct_calls es = []
      \<and> idle_calls es = SetSensitive False # map StoreAppend (store_appends es)
           @ (if out = Finished then [SetSensitive True] else [])
      \<and> (\<forall>e \<in> set es. (\<exists>call. e = IdleAddWait call \<and> executed_on e = MainThread)
            \<or> (is_rpc_effect e \<and> executed_on e = WorkerThread))
      \<and> (getitem (config self) ''campaign_id'' = Inr campaign_id \<longrightarrow>
            RemoteTable (''campaign/'' @ remote_table_name (tab_class self)) campaign_id \<in> set es
            \<and> executed_on (RemoteTable (''campaign/'' @ remote_table_name (tab_class self)) campaign_id)
                = WorkerThread)
      \<and> store self' = map_option (\<lambda>rows. rows @ store_appends es) (store self)
      \<and> sensitive self' = (out = Finished))
   \<and> direct_calls (snd (loader_thread_routine ext now dt)) = []
   \<and> map (\<lambda>call. case call of GraphRefresh g info_cache \<Rightarrow> g | _ \<Rightarrow> PNone)
         (idle_calls (snd (loader_thread_routine ext now dt))) = graphs dt
   \<and> length (snd (loader_thread_routine ext now dt)) = length (graphs dt)"
proof -
  have a: "row_loader_thread_routine ext now destroy_at self = (self', es, out) \<longrightarrow>
      direct_calls es = []
      \<and> idle_calls es = SetSensitive False # map StoreAppend (store_appends es)
           @ (if out = Finished then [SetSensitive True] else [])
      \<and> (\<forall>e \<in> set es. (\<exists>call. e = IdleAddWait call \<and> executed_on e = MainThread)
            \<or> (is_rpc_effect e \<and> executed_on e = WorkerThread))
      \<and> (getitem (config self) ''campaign_id'' = Inr campaign_id \<longrightarrow>
            RemoteTable (''campaign/'' @ remote_table_name (tab_class self)) campaign_id \<in> set es
            \<and> executed_on (RemoteTable (''campaign/'' @ remote_table_name (tab_class self)) campaign_id)
                = WorkerThread)
      \<and> store self' = map_option (\<lambda>rows. rows @ store_appends es) (store self)
      \<and> sensitive self' = (out = Finished)"
  proof
    assume r: "row_loader_thread_routine ext now destroy_at self = (self', es, out)"
    have k: "\<And>e. is_rpc_effect e \<Longrightarrow> executed_on e = WorkerThread"
    proof -
      fix e show "is_rpc_effect e \<Longrightarrow> executed_on e = WorkerThread" by (cases e) simp_all
    qed
    from routine_trace[OF r] k show "direct_calls es = []
      \<and> idle_calls es = SetSensitive False # map StoreAppend (store_appends es)
           @ (if out = Finished then [SetSensitive True] else [])
      \<and> (\<forall>e \<in> set es. (\<exists>call. e = IdleAddWait call \<and> executed_on e = MainThread)
            \<or> (is_rpc_effect e \<and> executed_on e = WorkerThread))
      \<and> (getitem (config self) ''campaign_id'' = Inr campaign_id \<longrightarrow>
            RemoteTable (''campaign/'' @ remote_table_name (tab_class self)) campaign_id \<in> set es
            \<and> executed_on (RemoteTable (''campaign/'' @ remote_table_name (tab_class self)) campaign_id)
                = WorkerThread)
      \<and> store self' = map_option (\<lambda>rows. rows @ store_appends es) (store self)
      \<and> sensitive self' = (out = Finished)"
      by (intro conjI) (simp, simp, fastforce, simp, simp, simp)
  qed
  from a refresh_graphs_names[of ext "graphs dt" "[]"] show ?thesis
    by (simp add: loader_thread_routine_def)
qed

theorem gui_changes_go_through_main_loop_witness:
  "direct_calls (fst (snd (row_loader_thread_routine demo_ext 9 None demo_loading))) = []
   \<and> idle_calls (fst (snd (row_loader_thread_routine demo_ext 9 None demo_loading)))
       = [SetSensitive False, StoreAppend demo_row_1, SetSensitive True]
   \<and> RemoteTable ''campaign/credentials'' (PInt 7)
       \<in> set (fst (snd (row_loader_thread_routine demo_ext 9 None demo_loading)))
   \<and> executed_on (RemoteTable ''campaign/credentials'' (PInt 7)) = WorkerThread
   \<and> store (fst (row_loader_thread_routine demo_ext 9 None demo_loading)) = Some [demo_row_1]
   \<and> idle_calls (snd (loader_thread_routine demo_ext 9 demo_dashboard))
       = [GraphRefresh (PStr ''Overview'') [], GraphRefresh (PStr ''VisitsTimeline'') []]"
proof -
  have g: "\<And>name info_cache. graph_refresh demo_ext name info_cache = info_cache"
    by (simp add: demo_ext_def)
  show ?thesis
    using gui_changes_go_through_main_loop
      [where ext = demo_ext and self = demo_loading and now = 9 and destroy_at = None
         and self' = "demo_loading\<lparr>store := Some [demo_row_1], last_load_time := Fin 9\<rparr>"
         and es = "[IdleAddWait (SetSensitive False), RemoteTable ''campaign/credentials'' (PInt 7),
                    IdleAddWait (StoreAppend demo_row_1), Rpc ''credentials/delete'' (PInt 2),
                    IdleAddWait (SetSensitive True)]"
         and out = Finished and campaign_id = "PInt 7" and dt = demo_dashboard]
    by (simp add: demo_routine demo_loading_simps demo_dashboard_simps demo_remote_table
        loader_thread_routine_def g)
qed

text \<open>
  Claim C9. \<^verbatim>\<open>format_row_data\<close> returns \<^verbatim>\<open>None\<close> exactly when the deployment (dead
  drop tab) or the message (credentials and visits tabs) the row refers to is not
  retrieved: the lookup gives \<^verbatim>\<open>None\<close> or an empty row. Of the rows the loader has
  handled (all of them when the routine reaches its end), it issues the delete RPC of the
  tab's table for the id of every row whose formatted result is \<^verbatim>\<open>None\<close>, and for no
  other; it appends every row whose formatted result is not \<^verbatim>\<open>None\<close>, and no other.
\<close>

theorem unformattable_rows_are_deleted:
  "(format_row_data ext cls row = Inr None \<longleftrightarrow>
     (cls = CampaignViewDeaddropTab
        \<and> (\<exists>deploy_id. getitem row ''deployment_id'' = Inr deploy_id
              \<and> (remote_table_row ext ''deaddrop_deployments'' deploy_id = None
                 \<or> remote_table_row ext ''deaddrop_deployments'' deploy_id = Some [])))
     \<or> ((cls = CampaignViewCredentialsTab \<or> cls = CampaignViewVisitsTab)
        \<and> (\<exists>msg_id. getitem row ''message_id'' = Inr msg_id
              \<and> (remote_table_row ext ''messages'' msg_id = None
                 \<or> remote_table_row ext ''messages'' msg_id = Some []))))
   \<and> (row_loader_thread_routine ext now destroy_at self = (self', es, out)
        \<and> getitem (config self) ''campaign_id'' = Inr campaign_id
      \<longrightarrow> (\<exists>n \<le> length (remote_table ext (''campaign/'' @ remote_table_name (tab_class self)) campaign_id).
            (out = Finished \<longrightarrow>
               n = length (remote_table ext (''campaign/'' @ remote_table_name (tab_class self)) campaign_id))
            \<and> deleted_ids (remote_table_name (tab_class self)) es
              = map (\<lambda>r. projr (getitem r ''id''))
                  (filter (\<lambda>r. format_row_data ext (tab_class self) r = Inr None)
                     (take n (remote_table ext (''campaign/'' @ remote_table_name (tab_class self)) campaign_id)))
            \<and> store_appends es
              = map (\<lambda>r. store_row (projr (getitem r ''id''))
                           (the (projr (format_row_data ext (tab_class self) r))))
                  (filter (\<lambda>r. format_row_data ext (tab_class self) r \<noteq> Inr None)
                     (take n (remote_table ext (''campaign/'' @ remote_table_name (tab_class self)) campaign_id)))))"
  using format_row_data_None[of ext cls row]
    routine_handled[of ext now destroy_at self self' es out campaign_id]
  by blast

theorem unformattable_rows_are_deleted_witness:
  "format_row_data demo_ext CampaignViewCredentialsTab demo_credential_2 = Inr None
   \<and> deleted_ids ''credentials'' (fst (snd (row_loader_thread_routine demo_ext 9 None demo_loading)))
       = [PInt 2]
   \<and> store_appends (fst (snd (row_loader_thread_routine demo_ext 9 None demo_loading)))
       = [demo_row_1]"
  using unformattable_rows_are_deleted
      [where ext = demo_ext and cls = CampaignViewCredentialsTab and row = demo_credential_2
         and self = demo_loading and now = 9 and destroy_at = None
         and self' = "demo_loading\<lparr>store := Some [demo_row_1], last_load_time := Fin 9\<rparr>"
         and es = "[IdleAddWait (SetSensitive False), RemoteTable ''campaign/credentials'' (PInt 7),
                    IdleAddWait (StoreAppend demo_row_1), Rpc ''credentials/delete'' (PInt 2),
                    IdleAddWait (SetSensitive True)]"
         and out = Finished and campaign_id = "PInt 7"]
  by (simp add: demo_routine demo_format)

subsection \<open>The dashboard's timer\<close>

text \<open>
  Claim C5. The construction of a \<^verbatim>\<open>CampaignViewDashboardTab\<close> registers one timeout:
  its period is \<^verbatim>\<open>refresh_frequency\<close> and its handler \<^verbatim>\<open>loader_idle_routine\<close>. The
  handler calls \<^verbatim>\<open>load_campaign_information\<close> with \<^verbatim>\<open>force=True\<close> and returns
  \<^verbatim>\<open>True\<close>, the value that keeps a GLib timeout installed. The staleness check does
  not stop such a refresh: whatever \<^verbatim>\<open>last_load_time\<close> and the clock are, the handler
  starts a loader thread when none is alive and the parent has its RPC client.
\<close>

theorem dashboard_timer_forces_reload:
  "(dashboard_init ext cfg = Inr (d, es) \<longrightarrow>
      timeouts es = [(refresh_frequency d, LoaderIdleRoutine)]
      \<and> refresh_frequency d
          = timedef_to_seconds ext (py_str (dict_get cfg ''gui.refresh_frequency'' (PStr ''5m''))))
   \<and> loader_idle_routine now has_rpc dt
       = (fst (dashboard_load_campaign_information True now has_rpc dt),
          LogDebug ''idle loader routine called''
            # snd (dashboard_load_campaign_information True now has_rpc dt),
          True)
   \<and> (has_rpc \<and> \<not> thread_is_alive (threads dt) (loader_thread dt) \<longrightarrow>
        thread_starts (fst (snd (loader_idle_routine now has_rpc dt))) = [length (threads dt)])"
proof -
  have a: "dashboard_init ext cfg = Inr (d, es) \<longrightarrow>
      timeouts es = [(refresh_frequency d, LoaderIdleRoutine)]
      \<and> refresh_frequency d
          = timedef_to_seconds ext (py_str (dict_get cfg ''gui.refresh_frequency'' (PStr ''5m'')))"
    using dashboard_init_fields[of ext cfg d es] by blast
  have b: "loader_idle_routine now has_rpc dt
       = (fst (dashboard_load_campaign_information True now has_rpc dt),
          LogDebug ''idle loader routine called''
            # snd (dashboard_load_campaign_information True now has_rpc dt),
          True)"
    by (simp add: loader_idle_routine_def split: prod.splits)
  have c: "has_rpc \<and> \<not> thread_is_alive (threads dt) (loader_thread dt) \<longrightarrow>
        thread_starts (fst (snd (loader_idle_routine now has_rpc dt))) = [length (threads dt)]"
    by (simp add: loader_idle_routine_def dashboard_load_campaign_information_def Let_def)
  from a b c show ?thesis by blast
qed

theorem dashboard_timer_forces_reload_witness:
  "timeouts [LogDebug ''dashboard refresh frequency set to 300 seconds'',
             LogWarning ''could not get graph: VisitorInfo'',
             TimeoutAddSeconds 300 LoaderIdleRoutine] = [(300, LoaderIdleRoutine)]
   \<and> snd (snd (loader_idle_routine 101 True (demo_dashboard\<lparr>last_load_time := Fin 100\<rparr>))) = True
   \<and> thread_starts (fst (snd (loader_idle_routine 101 True (demo_dashboard\<lparr>last_load_time := Fin 100\<rparr>))))
       = [0]"
  using dashboard_timer_forces_reload
      [where ext = demo_ext and cfg = demo_config and d = demo_dashboard
         and es = "[LogDebug ''dashboard refresh frequency set to 300 seconds'',
                    LogWarning ''could not get graph: VisitorInfo'',
                    TimeoutAddSeconds 300 LoaderIdleRoutine]"
         and now = 101 and has_rpc = True and dt = "demo_dashboard\<lparr>last_load_time := Fin 100\<rparr>"]
  by (simp add: demo_dashboard_init demo_dashboard_simps thread_is_alive_def
      loader_idle_routine_def dashboard_load_campaign_information_def Let_def)

subsection \<open>Deleting and exporting while a load is running\<close>

text \<open>
  Claim C6. While the loader thread of a tab is alive, a request to delete a row and a
  request to export to CSV show a warning dialog and do nothing else: the tab is
  unchanged, no RPC is issued and no file is written. When the loader is not alive,
  deleting a selected row that the user confirms issues the delete RPC of the tab's table
  for the id in the row's first cell and then reloads with \<^verbatim>\<open>force=True\<close>, which starts
  a loader thread; without a selection or without the confirmation nothing is deleted.
\<close>

theorem no_delete_or_export_while_loading:
  "(thread_is_alive (threads self) (row_loader_thread self) \<longrightarrow>
      prompt_to_delete_row now tree_iter answer self
        = (self, [ShowDialogWarning ''Can Not Delete Rows While Loading''])
      \<and> signal_button_clicked_export response self
        = (self, [ShowDialogWarning ''Can Not Export Rows While Loading''], Finished))
   \<and> (\<not> thread_is_alive (threads self) (row_loader_thread self) \<longrightarrow>
      prompt_to_delete_row now (Some cells) True self
        = (fst (load_campaign_information True now self),
           [ShowDialogYesNo ''Delete This Row?'' ''This information will be lost.'',
            Rpc (remote_table_name (tab_class self) @ ''/delete'') (PStr (get_value cells 0)),
            LockAcquire, Direct (if store self = None then SetModel else StoreClear),
            ThreadStart (length (threads self)), LockRelease])
      \<and> prompt_to_delete_row now (Some cells) False self
        = (self, [ShowDialogYesNo ''Delete This Row?'' ''This information will be lost.''])
      \<and> prompt_to_delete_row now None answer self = (self, []))"
  by (simp add: prompt_to_delete_row_def signal_button_clicked_export_def
      load_campaign_information_def Let_def)

theorem no_delete_or_export_while_loading_witness:
  "prompt_to_delete_row 9 (Some demo_row_1) True demo_loading
     = (demo_loading, [ShowDialogWarning ''Can Not Delete Rows While Loading''])
   \<and> signal_button_clicked_export (Some [(''target_path'', PStr ''/tmp/demo.csv'')]) demo_loading
     = (demo_loading, [ShowDialogWarning ''Can Not Export Rows While Loading''], Finished)
   \<and> snd (prompt_to_delete_row 9 (Some demo_row_1) True demo_tab)
     = [ShowDialogYesNo ''Delete This Row?'' ''This information will be lost.'',
        Rpc ''credentials/delete'' (PStr ''1''),
        LockAcquire, Direct SetModel, ThreadStart 0, LockRelease]"
  using no_delete_or_export_while_loading
      [where self = demo_loading and now = 9 and tree_iter = "Some demo_row_1" and answer = True
         and response = "Some [(''target_path'', PStr ''/tmp/demo.csv'')]"]
    no_delete_or_export_while_loading
      [where self = demo_tab and now = 9 and cells = demo_row_1]
  by (simp add: demo_loading_simps demo_tab_simps thread_is_alive_def get_value_def demo_row_1_def)

subsection \<open>The sub-tabs of the campaign view\<close>

text \<open>
  Claim C7. When \<^verbatim>\<open>CampaignViewTab.__init__\<close> returns, \<^verbatim>\<open>self.tabs\<close> holds exactly
  these entries: \<^verbatim>\<open>messages\<close>, \<^verbatim>\<open>visits\<close>, \<^verbatim>\<open>credentials\<close> and
  \<^verbatim>\<open>deaddrop_connections\<close>, each a table tab on the remote table of the same name, and
  \<^verbatim>\<open>dashboard\<close>, a dashboard tab, exactly when matplotlib is available; the notebook has
  a page for each of them. Without matplotlib the construction always returns; with it,
  it returns exactly when the construction of the dashboard does.
\<close>

theorem campaign_view_tab_sub_tabs:
  "(campaign_view_tab_init ext cfg = Inr (t, es) \<longrightarrow>
      map (\<lambda>(tab_name, sub). (tab_name,
             case sub of GenericTab g \<Rightarrow> Some (remote_table_name (tab_class g))
                       | DashboardTab d \<Rightarrow> None)) (tabs t)
        = (if has_matplotlib ext then [(''dashboard'', None)] else [])
          @ [(''messages'', Some ''messages''), (''visits'', Some ''visits''),
             (''credentials'', Some ''credentials''),
             (''deaddrop_connections'', Some ''deaddrop_connections'')]
      \<and> notebook t
        = (if has_matplotlib ext then [''Dashboard''] else [])
          @ [''Messages'', ''Visits'', ''Credentials'', ''Deaddrop''])
   \<and> (\<not> has_matplotlib ext \<longrightarrow> (\<exists>t es. campaign_view_tab_init ext cfg = Inr (t, es)))
   \<and> (has_matplotlib ext \<longrightarrow>
        (\<exists>t es. campaign_view_tab_init ext cfg = Inr (t, es))
          = (\<exists>d es. dashboard_init ext cfg = Inr (d, es)))"
  by (auto simp: campaign_view_tab_init_def add_table_tabs_def new_tab_def credentials_init_def
      generic_init_def Let_def split: sum.splits if_splits)

theorem campaign_view_tab_sub_tabs_witness:
  "map fst (tabs (fst (projr (campaign_view_tab_init demo_ext demo_config))))
     = [''dashboard'', ''messages'', ''visits'', ''credentials'', ''deaddrop_connections'']
   \<and> notebook (fst (projr (campaign_view_tab_init demo_ext demo_config)))
     = [''Dashboard'', ''Messages'', ''Visits'', ''Credentials'', ''Deaddrop'']
   \<and> map fst (tabs (fst (projr (campaign_view_tab_init (demo_ext\<lparr>has_matplotlib := False\<rparr>) demo_config))))
     = [''messages'', ''visits'', ''credentials'', ''deaddrop_connections'']"
proof -
  have m: "has_matplotlib demo_ext" by (simp add: demo_ext_def)
  have i: "campaign_view_tab_init demo_ext demo_config
      = Inr (fst (projr (campaign_view_tab_init demo_ext demo_config)),
             snd (projr (campaign_view_tab_init demo_ext demo_config)))"
    by (simp add: campaign_view_tab_init_def demo_dashboard_init m)
  have j: "campaign_view_tab_init (demo_ext\<lparr>has_matplotlib := False\<rparr>) demo_config
      = Inr (fst (projr (campaign_view_tab_init (demo_ext\<lparr>has_matplotlib := False\<rparr>) demo_config)),
             snd (projr (campaign_view_tab_init (demo_ext\<lparr>has_matplotlib := False\<rparr>) demo_config)))"
    by (simp add: campaign_view_tab_init_def)
  have f: "\<And>xs :: (string \<times> sub_tab) list.
      map fst xs = map fst (map (\<lambda>(tab_name, sub). (tab_name,
             case sub of GenericTab g \<Rightarrow> Some (remote_table_name (tab_class g))
                       | DashboardTab d \<Rightarrow> None)) xs)"
    by (simp add: case_prod_unfold comp_def)
  show ?thesis
    using campaign_view_tab_sub_tabs
        [where ext = demo_ext and cfg = demo_config
           and t = "fst (projr (campaign_view_tab_init demo_ext demo_config))"
           and es = "snd (projr (campaign_view_tab_init demo_ext demo_config))"]
      campaign_view_tab_sub_tabs
        [where ext = "demo_ext\<lparr>has_matplotlib := False\<rparr>" and cfg = demo_config
           and t = "fst (projr (campaign_view_tab_init (demo_ext\<lparr>has_matplotlib := False\<rparr>) demo_config))"
           and es = "snd (projr (campaign_view_tab_init (demo_ext\<lparr>has_matplotlib := False\<rparr>) demo_config))"]
      i j m
    by (simp add: f)
qed

subsection \<open>The password column\<close>

lemma set_visible_map_of:
  "map_of (set_visible k v rs) k = (if map_of rs k = None then None else Some v)"
  by (induction rs) (auto simp: set_visible_def)

lemma routine_renderers:
  "view_column_renderers (fst (row_loader_thread_routine ext now destroy_at self))
     = view_column_renderers self"
proof (cases rule: routine_cases[of self ext now destroy_at])
  case (no_campaign e)
  then show ?thesis by simp
next
  case (finished campaign_id self2 es)
  from loop_fields[OF finished(2)] finished(3) show ?thesis by simp
next
  case (stopped campaign_id self2 es out)
  from loop_fields[OF stopped(2)] stopped(4) show ?thesis by simp
qed

lemma apply_op_renderers:
  assumes "\<forall>active. op \<noteq> OpToggledShowPasswords active"
  shows "view_column_renderers (apply_op ext op self) = view_column_renderers self"
proof (cases op)
  case (OpLoad force now)
  then show ?thesis by (simp add: load_campaign_information_def Let_def)
next
  case (OpLoaderRun now destroy_at)
  obtain s es out where r: "row_loader_thread_routine ext now destroy_at self = (s, es, out)"
    using prod_cases3 by blast
  with routine_renderers[of ext now destroy_at self]
  have "view_column_renderers s = view_column_renderers self" by simp
  with r OpLoaderRun show ?thesis
    by (simp add: loader_thread_run_def split: option.splits)
next
  case (OpPromptToDeleteRow now tree_iter answer)
  then show ?thesis
    by (simp add: prompt_to_delete_row_def load_campaign_information_def Let_def
        split: option.splits)
next
  case (OpClickedRefresh now)
  then show ?thesis
    by (simp add: signal_button_clicked_refresh_def load_campaign_information_def Let_def)
next
  case (OpClickedExport response)
  then show ?thesis
    by (simp add: signal_button_clicked_export_def split: sum.splits option.splits)
next
  case OpDestroy
  then show ?thesis by (simp add: signal_destroy_def Let_def split: option.splits)
next
  case (OpButtonPressed event tree_iter)
  then show ?thesis by (simp add: signal_treeview_button_pressed_def)
next
  case (OpKeyPressed now event tree_iter answer)
  then show ?thesis
    by (simp add: signal_treeview_key_pressed_def prompt_to_delete_row_def
        load_campaign_information_def Let_def split: option.splits)
next
  case (OpPopupMenuCopy column_id tree_iter)
  then show ?thesis by (simp add: signal_activate_popup_menu_copy_def split: option.splits)
next
  case (OpToggledShowPasswords active)
  then show ?thesis using assms by simp
qed

lemma apply_op_toggled:
  "renderer_visible 3 self = Some b \<Longrightarrow>
     renderer_visible 3 (apply_op ext (OpToggledShowPasswords active) self) = Some active"
  by (simp add: renderer_visible_def signal_button_toggled_show_passwords_def set_visible_map_of)

lemma button_active_other:
  "(\<forall>active. op \<noteq> OpToggledShowPasswords active) \<Longrightarrow>
     button_active b (op # ops) = button_active b ops"
  by (cases op) auto

lemma run_ops_visible:
  "renderer_visible 3 self = Some b \<Longrightarrow>
     renderer_visible 3 (run_ops ext ops self) = Some (button_active b ops)"
proof (induction ops arbitrary: self b)
  case Nil
  then show ?case by simp
next
  case (Cons op ops)
  show ?case
  proof (cases "\<exists>active. op = OpToggledShowPasswords active")
    case True
    then obtain active where op: "op = OpToggledShowPasswords active" by blast
    from apply_op_toggled[OF Cons.prems, of ext active]
    have "renderer_visible 3 (apply_op ext op self) = Some active" using op by simp
    from Cons.IH[OF this] show ?thesis using op by simp
  next
    case False
    then have n: "\<forall>active. op \<noteq> OpToggledShowPasswords active" by blast
    from apply_op_renderers[OF n, of ext self] Cons.prems
    have "renderer_visible 3 (apply_op ext op self) = Some b" by (simp add: renderer_visible_def)
    from Cons.IH[OF this] show ?thesis using button_active_other[OF n] by simp
  qed
qed

lemma run_ops_visible_toggled:
  "\<exists>active. OpToggledShowPasswords active \<in> set ops \<Longrightarrow> renderer_visible 3 self = Some b \<Longrightarrow>
     renderer_visible 3 (run_ops ext ops self) = Some (button_active b0 ops)"
proof (induction ops arbitrary: self b)
  case Nil
  then show ?case by simp
next
  case (Cons op ops)
  show ?case
  proof (cases "\<exists>active. op = OpToggledShowPasswords active")
    case True
    then obtain active where op: "op = OpToggledShowPasswords active" by blast
    from apply_op_toggled[OF Cons.prems(2), of ext active]
    have "renderer_visible 3 (apply_op ext op self) = Some active" using op by simp
    from run_ops_visible[OF this] show ?thesis using op by simp
  next
    case False
    then have n: "\<forall>active. op \<noteq> OpToggledShowPasswords active" by blast
    with Cons.prems(1) have e: "\<exists>active. OpToggledShowPasswords active \<in> set ops" by auto
    from apply_op_renderers[OF n, of ext self] Cons.prems(2)
    have "renderer_visible 3 (apply_op ext op self) = Some b" by (simp add: renderer_visible_def)
    from Cons.IH[OF e this] show ?thesis using button_active_other[OF n] by simp
  qed
qed

lemma credentials_init_visible: "renderer_visible 3 (credentials_init ext cfg) = Some False"
  by (simp add: renderer_visible_def credentials_init_def generic_init_def Let_def
      set_visible_def upt_rec)


text \<open>
  Claim C10. On a \<^verbatim>\<open>CampaignViewCredentialsTab\<close> the renderer of column 3, the
  password, is invisible right after the construction. After any operations of the tab
  its visibility is the \<^verbatim>\<open>active\<close> state of the show-passwords button: the state the
  last \<^verbatim>\<open>toggled\<close> signal reported, and before the first signal the button's inactive
  state (once the button has been toggled, what its state was at the start does not
  matter). No operation other than the toggle handler changes the visibility.
\<close>

theorem password_column_follows_toggle:
  "renderer_visible 3 (credentials_init ext cfg) = Some False
   \<and> renderer_visible 3 (run_ops ext ops (credentials_init ext cfg)) = Some (button_active False ops)
   \<and> ((\<exists>active. OpToggledShowPasswords active \<in> set ops) \<longrightarrow>
        renderer_visible 3 (run_ops ext ops (credentials_init ext cfg)) = Some (button_active b0 ops))
   \<and> ((\<forall>active. op \<noteq> OpToggledShowPasswords active) \<longrightarrow>
        renderer_visible 3 (apply_op ext op self) = renderer_visible 3 self)"
  using credentials_init_visible[of ext cfg]
    run_ops_visible[OF credentials_init_visible, where ext = ext and ops = ops]
    run_ops_visible_toggled[OF _ credentials_init_visible, where ext = ext and ops = ops and ?b0.0 = b0]
    apply_op_renderers[where op = op and ext = ext and self = self]
  by (simp add: renderer_visible_def)

theorem password_column_follows_toggle_witness:
  "renderer_visible 3 demo_tab = Some False
   \<and> renderer_visible 3
        (run_ops demo_ext
           [OpLoad False 5, OpToggledShowPasswords True, OpLoaderRun 9 None, OpClickedRefresh 20]
           demo_tab) = Some True
   \<and> renderer_visible 3 (apply_op demo_ext OpDestroy demo_loading) = Some False"
  using password_column_follows_toggle
      [where ext = demo_ext and cfg = demo_config
         and ops = "[OpLoad False 5, OpToggledShowPasswords True, OpLoaderRun 9 None, OpClickedRefresh 20]"
         and ?b0.0 = True and op = OpDestroy and self = demo_loading]
  by (simp add: demo_tab_def[symmetric] renderer_visible_def demo_loading_simps)

subsection \<open>Callers of \<^verbatim>\<open>load_campaign_information\<close>\<close>

text \<open>One caller, run alone to its return, does what the method does.\<close>

lemma generic_run_alone_fresh:
  assumes "force \<or> \<not> diff_less (time_sub now (last_load_time self)) (refresh_frequency self)"
  shows "generic_run force now [0, 0, 0, 0, 0, 0] (generic_calls 1 self)
     = \<lparr> tab = fst (load_campaign_information force now self), lock_held = False,
         callers = [Returned] \<rparr>"
proof -
  have s1: "generic_step force now 0 (generic_calls (Suc 0) self)
      = \<lparr> tab = self, lock_held = False, callers = [L153] \<rparr>"
    using assms by (auto simp: generic_calls_def generic_step_def)
  show ?thesis
  proof (cases "thread_is_alive (threads self) (row_loader_thread self)")
    case True
    have s2: "generic_step force now 0 \<lparr> tab = self, lock_held = False, callers = [L153] \<rparr>
      = \<lparr> tab = self, lock_held = False, callers = [Returned] \<rparr>"
      using True by (simp add: generic_step_def)
    have s3: "generic_step force now 0 \<lparr> tab = self, lock_held = False, callers = [Returned] \<rparr>
      = \<lparr> tab = self, lock_held = False, callers = [Returned] \<rparr>"
      by (simp add: generic_step_def)
    have l: "load_campaign_information force now self = (self, [])"
      using True by (simp add: load_campaign_information_def)
    show ?thesis by (simp add: s1 s2 s3 l)
  next
    case False
    have s2: "generic_step force now 0 \<lparr> tab = self, lock_held = False, callers = [L153] \<rparr>
      = \<lparr> tab = self, lock_held = False, callers = [L155] \<rparr>"
      using False by (simp add: generic_step_def)
    have s3: "generic_step force now 0 \<lparr> tab = self, lock_held = False, callers = [L155] \<rparr>
      = \<lparr> tab = self, lock_held = True, callers = [L156] \<rparr>"
      by (simp add: generic_step_def)
    have s4: "generic_step force now 0 \<lparr> tab = self, lock_held = True, callers = [L156] \<rparr>
      = \<lparr> tab = self\<lparr>store := Some []\<rparr>, lock_held = True, callers = [L165] \<rparr>"
      by (simp add: generic_step_def)
    have s5: "generic_step force now 0
        \<lparr> tab = self\<lparr>store := Some []\<rparr>, lock_held = True, callers = [L165] \<rparr>
      = \<lparr> tab = self\<lparr>store := Some [], threads := threads self @ [True],
                      row_loader_thread := Some (length (threads self))\<rparr>,
          lock_held = True, callers = [L167] \<rparr>"
      by (simp add: generic_step_def)
    have s6: "generic_step force now 0
        \<lparr> tab = self\<lparr>store := Some [], threads := threads self @ [True],
                      row_loader_thread := Some (length (threads self))\<rparr>,
          lock_held = True, callers = [L167] \<rparr>
      = \<lparr> tab = self\<lparr>store := Some [], threads := threads self @ [True],
                      row_loader_thread := Some (length (threads self))\<rparr>,
          lock_held = False, callers = [Returned] \<rparr>"
      by (simp add: generic_step_def)
    have l: "fst (load_campaign_information force now self)
      = self\<lparr>store := Some [], threads := threads self @ [True],
               row_loader_thread := Some (length (threads self))\<rparr>"
      using False assms by (auto simp: load_campaign_information_def Let_def)
    show ?thesis by (simp add: s1 s2 s3 s4 s5 s6 l)
  qed
qed


lemma generic_run_alone:
  "generic_run force now [0, 0, 0, 0, 0, 0] (generic_calls 1 self)
     = \<lparr> tab = fst (load_campaign_information force now self), lock_held = False,
         callers = [Returned] \<rparr>"
proof (cases "force \<or> \<not> diff_less (time_sub now (last_load_time self)) (refresh_frequency self)")
  case True
  then show ?thesis by (rule generic_run_alone_fresh)
next
  case False
  have s1: "generic_step force now 0 (generic_calls (Suc 0) self)
      = \<lparr> tab = self, lock_held = False, callers = [Returned] \<rparr>"
    using False by (auto simp: generic_calls_def generic_step_def)
  have s3: "generic_step force now 0 \<lparr> tab = self, lock_held = False, callers = [Returned] \<rparr>
      = \<lparr> tab = self, lock_held = False, callers = [Returned] \<rparr>"
    by (simp add: generic_step_def)
  have l: "load_campaign_information force now self = (self, [])"
    using False by (auto simp: load_campaign_information_def)
  show ?thesis by (simp add: s1 s3 l)
qed

lemma dashboard_run_alone:
  "dashboard_run force now has_rpc [0, 0, 0, 0, 0, 0] (dashboard_calls 1 self)
     = \<lparr> dtab = fst (dashboard_load_campaign_information force now has_rpc self),
         lock_owner = None, dcallers = [DReturned] \<rparr>"
proof -
  have r: "dashboard_step force now has_rpc 0 \<lparr> dtab = self, lock_owner = None, dcallers = [DReturned] \<rparr>
      = \<lparr> dtab = self, lock_owner = None, dcallers = [DReturned] \<rparr>"
    by (simp add: dashboard_step_def)
  show ?thesis
  proof (cases "force \<or> \<not> diff_less (time_sub now (last_load_time self)) (refresh_frequency self)")
    case stale: False
    have s1: "dashboard_step force now has_rpc 0 (dashboard_calls (Suc 0) self)
        = \<lparr> dtab = self, lock_owner = None, dcallers = [DReturned] \<rparr>"
      using stale by (auto simp: dashboard_calls_def dashboard_step_def)
    have l: "dashboard_load_campaign_information force now has_rpc self = (self, [])"
      using stale by (auto simp: dashboard_load_campaign_information_def)
    show ?thesis by (simp add: s1 r l)
  next
    case fresh: True
    have s1: "dashboard_step force now has_rpc 0 (dashboard_calls (Suc 0) self)
        = \<lparr> dtab = self, lock_owner = None, dcallers = [D363] \<rparr>"
      using fresh by (auto simp: dashboard_calls_def dashboard_step_def)
    show ?thesis
    proof (cases has_rpc)
      case False
      have s2: "dashboard_step force now has_rpc 0 \<lparr> dtab = self, lock_owner = None, dcallers = [D363] \<rparr>
          = \<lparr> dtab = self, lock_owner = None, dcallers = [DReturned] \<rparr>"
        using False by (simp add: dashboard_step_def)
      have l: "fst (dashboard_load_campaign_information force now has_rpc self) = self"
        using False by (auto simp: dashboard_load_campaign_information_def)
      show ?thesis by (simp add: s1 s2 r l)
    next
      case rpc: True
      have s2: "dashboard_step force now has_rpc 0 \<lparr> dtab = self, lock_owner = None, dcallers = [D363] \<rparr>
          = \<lparr> dtab = self, lock_owner = None, dcallers = [D366] \<rparr>"
        using rpc by (simp add: dashboard_step_def)
      have s3: "dashboard_step force now has_rpc 0 \<lparr> dtab = self, lock_owner = None, dcallers = [D366] \<rparr>
          = \<lparr> dtab = self, lock_owner = Some 0, dcallers = [D367] \<rparr>"
        by (simp add: dashboard_step_def)
      show ?thesis
      proof (cases "thread_is_alive (threads self) (loader_thread self)")
        case True
        have s4: "dashboard_step force now has_rpc 0 \<lparr> dtab = self, lock_owner = Some 0, dcallers = [D367] \<rparr>
            = \<lparr> dtab = self, lock_owner = None, dcallers = [DReturned] \<rparr>"
          using True by (simp add: dashboard_step_def)
        have l: "fst (dashboard_load_campaign_information force now has_rpc self) = self"
          using True by (auto simp: dashboard_load_campaign_information_def)
        show ?thesis by (simp add: s1 s2 s3 s4 r l)
      next
        case False
        have s4: "dashboard_step force now has_rpc 0 \<lparr> dtab = self, lock_owner = Some 0, dcallers = [D367] \<rparr>
            = \<lparr> dtab = self, lock_owner = Some 0, dcallers = [D369] \<rparr>"
          using False by (simp add: dashboard_step_def)
        have s5: "dashboard_step force now has_rpc 0 \<lparr> dtab = self, lock_owner = Some 0, dcallers = [D369] \<rparr>
            = \<lparr> dtab = self\<lparr>threads := threads self @ [True],
                             loader_thread := Some (length (threads self))\<rparr>,
                lock_owner = Some 0, dcallers = [D370] \<rparr>"
          by (simp add: dashboard_step_def)
        have s6: "dashboard_step force now has_rpc 0
              \<lparr> dtab = self\<lparr>threads := threads self @ [True],
                             loader_thread := Some (length (threads self))\<rparr>,
                lock_owner = Some 0, dcallers = [D370] \<rparr>
            = \<lparr> dtab = self\<lparr>threads := threads self @ [True],
                             loader_thread := Some (length (threads self))\<rparr>,
                lock_owner = None, dcallers = [DReturned] \<rparr>"
          by (simp add: dashboard_step_def)
        have l: "fst (dashboard_load_campaign_information force now has_rpc self)
            = self\<lparr>threads := threads self @ [True], loader_thread := Some (length (threads self))\<rparr>"
          using False rpc fresh by (auto simp: dashboard_load_campaign_information_def Let_def)
        show ?thesis by (simp add: s1 s2 s3 s4 s5 s6 l)
      qed
    qed
  qed
qed

text \<open>On the dashboard, however its callers are interleaved, at most one loader thread is alive.\<close>

lemma alive_count_snoc: "alive_count (ts @ [True]) = Suc (alive_count ts)"
  by (simp add: alive_count_def)

lemma alive_snoc: "thread_is_alive (ts @ [True]) (Some (length ts))"
  by (simp add: thread_is_alive_def)

lemma dashboard_inv_goto:
  assumes inv: "dashboard_inv conf" and c: "c < length (dcallers conf)"
    and old: "\<not> in_with_block (dcallers conf ! c)" and new: "\<not> in_with_block p"
  shows "dashboard_inv (conf\<lparr>dcallers := (dcallers conf)[c := p]\<rparr>)"
proof -
  have "p \<noteq> D369" using new by (auto simp: in_with_block_def)
  then show ?thesis using inv c old new
    by (auto simp: dashboard_inv_def nth_list_update)
qed


lemma dashboard_inv_acquire:
  assumes inv: "dashboard_inv conf" and c: "c < length (dcallers conf)"
    and old: "dcallers conf ! c = D366" and free: "lock_owner conf = None \<or> lock_owner conf = Some c"
  shows "dashboard_inv (conf\<lparr>lock_owner := Some c, dcallers := (dcallers conf)[c := D367]\<rparr>)"
proof -
  have "lock_owner conf \<noteq> Some c" using inv c old by (auto simp: dashboard_inv_def in_with_block_def)
  with free have "lock_owner conf = None" by simp
  then show ?thesis using inv c old
    by (auto simp: dashboard_inv_def nth_list_update in_with_block_def)
qed

lemma dashboard_inv_release:
  assumes inv: "dashboard_inv conf" and c: "c < length (dcallers conf)"
    and old: "in_with_block (dcallers conf ! c)"
  shows "dashboard_inv (conf\<lparr>lock_owner := None, dcallers := (dcallers conf)[c := DReturned]\<rparr>)"
proof -
  have o: "lock_owner conf = Some c" using inv c old by (auto simp: dashboard_inv_def)
  then have "\<forall>i < length (dcallers conf). i \<noteq> c \<longrightarrow> \<not> in_with_block (dcallers conf ! i)"
    using inv by (auto simp: dashboard_inv_def)
  then show ?thesis using inv c old o
    by (auto simp: dashboard_inv_def nth_list_update in_with_block_def)
qed

lemma dashboard_inv_checked:
  assumes inv: "dashboard_inv conf" and c: "c < length (dcallers conf)"
    and old: "dcallers conf ! c = D367"
    and dead: "\<not> thread_is_alive (threads (dtab conf)) (loader_thread (dtab conf))"
  shows "dashboard_inv (conf\<lparr>dcallers := (dcallers conf)[c := D369]\<rparr>)"
proof -
  have "alive_count (threads (dtab conf)) = 0" using inv dead by (auto simp: dashboard_inv_def)
  then show ?thesis using inv c old
    by (auto simp: dashboard_inv_def nth_list_update in_with_block_def)
qed

lemma dashboard_inv_start:
  assumes inv: "dashboard_inv conf" and c: "c < length (dcallers conf)"
    and old: "dcallers conf ! c = D369"
  shows "dashboard_inv
           (conf\<lparr>dtab := (dtab conf)\<lparr>threads := threads (dtab conf) @ [True],
                                    loader_thread := Some (length (threads (dtab conf)))\<rparr>,
                 dcallers := (dcallers conf)[c := D370]\<rparr>)"
proof -
  have z: "alive_count (threads (dtab conf)) = 0" using inv c old by (auto simp: dashboard_inv_def)
  have o: "lock_owner conf = Some c" using inv c old by (auto simp: dashboard_inv_def in_with_block_def)
  then have n: "\<forall>i < length (dcallers conf). i \<noteq> c \<longrightarrow> dcallers conf ! i \<noteq> D369"
    using inv by (auto simp: dashboard_inv_def in_with_block_def)
  show ?thesis using inv c old z n
    by (auto simp: dashboard_inv_def nth_list_update in_with_block_def alive_count_snoc alive_snoc)
qed

lemma dashboard_step_inv:
  assumes inv: "dashboard_inv conf"
  shows "dashboard_inv (dashboard_step force now has_rpc c conf)"
proof (cases "length (dcallers conf) \<le> c")
  case True
  then show ?thesis using inv by (simp add: dashboard_step_def Let_def)
next
  case False
  then have c: "c < length (dcallers conf)" by simp
  show ?thesis
  proof (cases "dcallers conf ! c")
    case D361
    then show ?thesis using False dashboard_inv_goto[OF inv c, of DReturned]
        dashboard_inv_goto[OF inv c, of D363]
      by (simp add: dashboard_step_def in_with_block_def Let_def)
  next
    case D363
    then show ?thesis using False dashboard_inv_goto[OF inv c, of DReturned]
        dashboard_inv_goto[OF inv c, of D366]
      by (simp add: dashboard_step_def in_with_block_def Let_def)
  next
    case D366
    then show ?thesis using False dashboard_inv_acquire[OF inv c D366] inv
      by (auto simp: dashboard_step_def Let_def)
  next
    case D367
    then show ?thesis using False dashboard_inv_release[OF inv c] dashboard_inv_checked[OF inv c D367]
      by (simp add: dashboard_step_def in_with_block_def Let_def)
  next
    case D369
    then show ?thesis using False dashboard_inv_start[OF inv c D369]
      by (simp add: dashboard_step_def Let_def)
  next
    case D370
    then show ?thesis using False dashboard_inv_release[OF inv c]
      by (simp add: dashboard_step_def in_with_block_def Let_def)
  next
    case DReturned
    then show ?thesis using False inv by (simp add: dashboard_step_def Let_def)
  qed
qed

lemma dashboard_run_inv:
  "dashboard_inv conf \<Longrightarrow> dashboard_inv (dashboard_run force now has_rpc schedule conf)"
  by (induction schedule arbitrary: conf) (simp_all add: dashboard_step_inv)

lemma dashboard_calls_inv:
  assumes "alive_count (threads self) = 0
           \<or> (alive_count (threads self) = 1 \<and> thread_is_alive (threads self) (loader_thread self))"
  shows "dashboard_inv (dashboard_calls n self)"
  using assms by (auto simp: dashboard_inv_def dashboard_calls_def in_with_block_def)

lemma dashboard_one_loader:
  assumes "alive_count (threads self) = 0
           \<or> (alive_count (threads self) = 1 \<and> thread_is_alive (threads self) (loader_thread self))"
  shows "alive_count (threads (dtab (dashboard_run force now has_rpc schedule (dashboard_calls n self)))) \<le> 1"
  using dashboard_run_inv[OF dashboard_calls_inv[OF assms], of force now has_rpc schedule n]
  by (simp add: dashboard_inv_def)

text \<open>Calls made one after the other keep a table tab at one loader thread at most.\<close>

lemma load_one_loader:
  assumes "alive_count (threads self) = 0
           \<or> (alive_count (threads self) = 1 \<and> thread_is_alive (threads self) (row_loader_thread self))"
  shows "alive_count (threads (fst (load_campaign_information force now self))) \<le> 1
     \<and> (alive_count (threads (fst (load_campaign_information force now self))) = 1 \<longrightarrow>
          thread_is_alive (threads (fst (load_campaign_information force now self)))
            (row_loader_thread (fst (load_campaign_information force now self))))
     \<and> (thread_is_alive (threads self) (row_loader_thread self) \<longrightarrow>
          load_campaign_information force now self = (self, []))"
proof (cases "thread_is_alive (threads self) (row_loader_thread self)")
  case True
  then show ?thesis using assms by (auto simp: load_campaign_information_def)
next
  case False
  then have "alive_count (threads self) = 0" using assms by auto
  then show ?thesis using False
    by (auto simp: load_campaign_information_def Let_def alive_count_snoc alive_snoc)
qed

text \<open>
  Claim C2. A call of \<^verbatim>\<open>load_campaign_information\<close> made while the loader thread is
  alive returns without starting another (shown above for calls made one after the other,
  and on the dashboard for callers interleaved in any way, where the check and the start
  of the thread are inside the \<^verbatim>\<open>with\<close> block of the lock). On the table tabs the
  check of line 153 is made before the lock is taken at line 155. Two callers can both
  pass the check while no thread is alive; the lock then only puts their thread starts
  one after the other, and two loader threads are alive at the same time. Here two
  forced calls on the new credentials tab of the demo campaign are interleaved so: the
  first caller passes the check, the second runs to its return, the first goes on.
\<close>

theorem generic_tab_two_loaders:
  "lock_held (generic_run True 5 [0, 0] (generic_calls 2 demo_tab)) = False
   \<and> callers (generic_run True 5 [0, 0] (generic_calls 2 demo_tab)) = [L155, L151]
   \<and> alive_count (threads (tab (generic_run True 5 [0, 0, 1, 1, 1, 1, 1, 1, 0, 0, 0, 0]
                                  (generic_calls 2 demo_tab)))) = 2
   \<and> callers (generic_run True 5 [0, 0, 1, 1, 1, 1, 1, 1, 0, 0, 0, 0] (generic_calls 2 demo_tab))
       = [Returned, Returned]"
  by (simp add: generic_calls_def generic_step_def demo_tab_simps thread_is_alive_def
      alive_count_def Let_def numeral_2_eq_2)

subsection \<open>Teardown\<close>






lemma loader_returned_stays:
  "at_line c = LReturned out \<Longrightarrow> loader_run ext now (replicate k Loader) c = c"
proof (induction k)
  case 0
  then show ?case by simp
next
  case (Suc k)
  then show ?case by (simp add: loader_step_def Let_def)
qed

lemma loader_alone_loop:
  assumes "pending c = rows" and "at_line c = L178"
    and "row_loader_loop ext (ltab c) (map Fetched rows) = (s', es, out)"
    and "3 * length rows + 1 \<le> n"
  shows "ltab (loader_run ext now (replicate n Loader) c)
           = (if out = Finished then s'\<lparr>sensitive := True, last_load_time := Fin now\<rparr> else s')
     \<and> issued (loader_run ext now (replicate n Loader) c)
           = issued c @ es @ (if out = Finished then [IdleAddWait (SetSensitive True)] else [])
     \<and> at_line (loader_run ext now (replicate n Loader) c) = LReturned out"
  using assms
proof (induction rows arbitrary: c n s' es out)
  case Nil
  then obtain m where n: "n = Suc m" by (cases n) auto
  have st: "loader_step ext now c
      = c\<lparr>ltab := (ltab c)\<lparr>sensitive := True, last_load_time := Fin now\<rparr>,
          at_line := LReturned Finished,
          issued := issued c @ [IdleAddWait (SetSensitive True)]\<rparr>"
    using Nil.prems by (simp add: loader_step_def Let_def)
  have "loader_run ext now (replicate n Loader) c = loader_step ext now c"
    using loader_returned_stays[of "loader_step ext now c" Finished ext now m] st n by simp
  then show ?case using Nil.prems st by auto
next
  case (Cons row_data rest)
  show ?case
  proof (cases rule: loop_Fetched_cases[of row_data ext "ltab c" "map Fetched rest"])
    case (no_id e)
    obtain m where n: "n = Suc m" using Cons.prems(4) by (cases n) auto
    have st: "loader_step ext now c = c\<lparr>pending := rest, at_line := LReturned (Raised e)\<rparr>"
      using Cons.prems(1,2) no_id(1) by (simp add: loader_step_def Let_def)
    have "loader_run ext now (replicate n Loader) c = loader_step ext now c"
      using loader_returned_stays[of "loader_step ext now c" "Raised e" ext now m] st n by simp
    then show ?thesis using Cons.prems(3) no_id(2) st by auto
  next
    case (raised row_id e)
    obtain m where n: "n = Suc m" using Cons.prems(4) by (cases n) auto
    have st: "loader_step ext now c = c\<lparr>pending := rest, at_line := LReturned (Raised e)\<rparr>"
      using Cons.prems(1,2) raised(1,2) by (simp add: loader_step_def Let_def)
    have "loader_run ext now (replicate n Loader) c = loader_step ext now c"
      using loader_returned_stays[of "loader_step ext now c" "Raised e" ext now m] st n by simp
    then show ?thesis using Cons.prems(3) raised(3) st by auto
  next
    case (delete row_id s1 es1 out1)
    obtain m where n: "n = Suc m" and m: "3 * length rest + 1 \<le> m"
      using Cons.prems(4) by (cases n) auto
    define c1 where "c1 = c\<lparr>pending := rest,
        issued := issued c @ [Rpc (remote_table_name (tab_class (ltab c)) @ ''/delete'') row_id]\<rparr>"
    have st: "loader_step ext now c = c1"
      using Cons.prems(1,2) delete(1,2) by (simp add: loader_step_def Let_def c1_def)
    have p: "pending c1 = rest" "at_line c1 = L178" "ltab c1 = ltab c"
      using Cons.prems(2) by (simp_all add: c1_def)
    have l: "row_loader_loop ext (ltab c1) (map Fetched rest) = (s1, es1, out1)"
      using delete(3) p by simp
    have e: "s' = s1" "es = Rpc (remote_table_name (tab_class (ltab c)) @ ''/delete'') row_id # es1"
      "out = out1"
      using Cons.prems(3) delete(4) by simp_all
    from Cons.IH[OF p(1) p(2) l m] show ?thesis
      using st n e by (simp add: c1_def)
  next
    case (stop row_id formatted)
    obtain m where n: "n = Suc (Suc m)" using Cons.prems(4) by (cases n; cases "n - 1") auto
    define c1 where "c1 = c\<lparr>pending := rest, at_line := L186 (store_row row_id formatted)\<rparr>"
    have st1: "loader_step ext now c = c1"
      using Cons.prems(1,2) stop(1,2) by (simp add: loader_step_def Let_def c1_def)
    have st2: "loader_step ext now c1 = c1\<lparr>at_line := LReturned Destroyed\<rparr>"
      using stop(3) by (simp add: loader_step_def Let_def c1_def)
    have "loader_run ext now (replicate n Loader) c = c1\<lparr>at_line := LReturned Destroyed\<rparr>"
      using loader_returned_stays[of "c1\<lparr>at_line := LReturned Destroyed\<rparr>" Destroyed ext now m]
        st1 st2 n by simp
    then show ?thesis using Cons.prems(3) stop(4) by (auto simp: c1_def)
  next
    case (append row_id formatted s1 es1 out1)
    obtain m where n: "n = Suc (Suc (Suc m))" and m: "3 * length rest + 1 \<le> m"
      using Cons.prems(4) by (cases n; cases "n - 1"; cases "n - 2") auto
    define c1 where "c1 = c\<lparr>pending := rest, at_line := L186 (store_row row_id formatted)\<rparr>"
    define c3 where "c3 = c\<lparr>ltab := (ltab c)\<lparr>store :=
          map_option (\<lambda>rows. rows @ [store_row row_id formatted]) (store (ltab c))\<rparr>,
        pending := rest,
        issued := issued c @ [IdleAddWait (StoreAppend (store_row row_id formatted))]\<rparr>"
    have st1: "loader_step ext now c = c1"
      using Cons.prems(1,2) append(1,2) by (simp add: loader_step_def Let_def c1_def)
    have st2: "loader_step ext now c1 = c1\<lparr>at_line := L188 (store_row row_id formatted)\<rparr>"
      using append(3) by (simp add: loader_step_def Let_def c1_def)
    have st3: "loader_step ext now (c1\<lparr>at_line := L188 (store_row row_id formatted)\<rparr>) = c3"
      using Cons.prems(2) by (simp add: loader_step_def Let_def c1_def c3_def)
    have p: "pending c3 = rest" "at_line c3 = L178"
      using Cons.prems(2) by (simp_all add: c3_def)
    have l: "row_loader_loop ext (ltab c3) (map Fetched rest) = (s1, es1, out1)"
      using append(4) by (simp add: c3_def)
    have e: "s' = s1" "es = IdleAddWait (StoreAppend (store_row row_id formatted)) # es1" "out = out1"
      using Cons.prems(3) append(5) by simp_all
    from Cons.IH[OF p(1) p(2) l m] show ?thesis
      using st1 st2 st3 n e by (simp add: c3_def)
  qed
qed

text \<open>The loader thread left alone does what \<^verbatim>\<open>row_loader_thread_routine\<close> does.\<close>

lemma loader_alone:
  assumes r: "row_loader_thread_routine ext now None self = (s', es, out)"
    and n: "1 \<le> n"
      "\<forall>campaign_id. getitem (config self) ''campaign_id'' = Inr campaign_id \<longrightarrow>
         3 * length (remote_table ext (''campaign/'' @ remote_table_name (tab_class self)) campaign_id)
           + 2 \<le> n"
  shows "ltab (loader_run ext now (replicate n Loader) (loader_start self)) = s'
     \<and> issued (loader_run ext now (replicate n Loader) (loader_start self)) = es
     \<and> at_line (loader_run ext now (replicate n Loader) (loader_start self)) = LReturned out"
proof -
  obtain m where m: "n = Suc m" using n(1) by (cases n) auto
  show ?thesis
  proof (cases rule: routine_cases[of self ext now None])
    case (no_campaign e)
    define c1 where "c1 = (loader_start self)\<lparr>ltab := self\<lparr>sensitive := False\<rparr>,
        at_line := LReturned (Raised e), issued := [IdleAddWait (SetSensitive False)]\<rparr>"
    have st: "loader_step ext now (loader_start self) = c1"
      using no_campaign(1) by (simp add: loader_step_def Let_def loader_start_def c1_def)
    have "loader_run ext now (replicate n Loader) (loader_start self) = c1"
      using loader_returned_stays[of c1 "Raised e" ext now m] st m by (simp add: c1_def)
    then show ?thesis using r no_campaign(2) by (simp add: c1_def)
  next
    case (finished campaign_id self2 es2)
    define rows where "rows = remote_table ext (''campaign/'' @ remote_table_name (tab_class self)) campaign_id"
    define c1 where "c1 = \<lparr> ltab = self\<lparr>sensitive := False\<rparr>, pending = rows, at_line = L178,
        issued = [IdleAddWait (SetSensitive False),
                  RemoteTable (''campaign/'' @ remote_table_name (tab_class self)) campaign_id] \<rparr>"
    have st: "loader_step ext now (loader_start self) = c1"
      using finished(1) by (simp add: loader_step_def Let_def loader_start_def c1_def rows_def)
    have k: "3 * length rows + 1 \<le> m" using n(2) finished(1) m by (simp add: rows_def)
    have l: "row_loader_loop ext (ltab c1) (map Fetched rows) = (self2, es2, Finished)"
      using finished(2) by (simp add: c1_def interleave_def rows_def)
    from loader_alone_loop[OF _ _ l k, of now] show ?thesis
      using st m r finished(3) by (simp add: c1_def)
  next
    case (stopped campaign_id self2 es2 out2)
    define rows where "rows = remote_table ext (''campaign/'' @ remote_table_name (tab_class self)) campaign_id"
    define c1 where "c1 = \<lparr> ltab = self\<lparr>sensitive := False\<rparr>, pending = rows, at_line = L178,
        issued = [IdleAddWait (SetSensitive False),
                  RemoteTable (''campaign/'' @ remote_table_name (tab_class self)) campaign_id] \<rparr>"
    have st: "loader_step ext now (loader_start self) = c1"
      using stopped(1) by (simp add: loader_step_def Let_def loader_start_def c1_def rows_def)
    have k: "3 * length rows + 1 \<le> m" using n(2) stopped(1) m by (simp add: rows_def)
    have l: "row_loader_loop ext (ltab c1) (map Fetched rows) = (self2, es2, out2)"
      using stopped(2) by (simp add: c1_def interleave_def rows_def)
    from loader_alone_loop[OF _ _ l k, of now] show ?thesis
      using st m r stopped(3,4) by (simp add: c1_def)
  qed
qed





end
